theory Spec2Isabelle
  imports Main
begin

section \<open>The Application controller (controllers/application_controller.go)\<close>

text \<open>
  A shallow embedding of the reconcile loop of the Application controller. The Go source
  works on pointers and calls a Kubernetes client; the embedding makes both explicit:

  \<^item> objects reached through \<^verbatim>\<open>*unstructured.Unstructured\<close> pointers live in a heap (a list
    of cells, a pointer is an index), so that two pointers to one variable are visible;
  \<^item> every call of the client, of the REST mapper and of the logger is appended to a trace,
    so that "no write was issued" is a statement about the trace;
  \<^item> a Go panic is a value of type \<open>panic\<close> (the left summand of a result), an error
    return is a value of type \<open>error\<close>.

  The module is from 2020: its Go version is before 1.22, where the variable of a
  \<^verbatim>\<open>for ... range\<close> statement is one variable for the whole loop.
\<close>

subsection \<open>Errors and panics\<close>

datatype error = NotFound string | NoKindMatch string | ServerError string

text \<open>\<^verbatim>\<open>errors.IsNotFound\<close> of k8s.io/apimachinery.\<close>

fun IsNotFound :: "error \<Rightarrow> bool" where
  "IsNotFound (NotFound _) = True"
| "IsNotFound _ = False"

subsection \<open>Kubernetes objects\<close>

type_synonym NamespacedName = "string \<times> string"

record GroupKind =
  gkGroup :: string
  gkKind :: string

record GroupVersionKind =
  gvkGroup :: string
  gvkVersion :: string
  gvkKind :: string

record OwnerReference =
  refAPIVersion :: string
  refKind :: string
  refName :: string
  refUID :: string
  refController :: "bool option"
  refBlockOwnerDeletion :: "bool option"

record LabelSelector =
  MatchLabels :: "(string \<times> string) list"

text \<open>
  An \<^verbatim>\<open>unstructured.Unstructured\<close>: the fields the controller reads or writes, and the
  object's reported conditions, which only the status evaluator looks at.
\<close>

record Unstructured =
  uGVK :: GroupVersionKind
  uNamespace :: string
  uName :: string
  uSelfLink :: string
  uOwnerReferences :: "OwnerReference list"
  uConditions :: "(string \<times> string) list"

record ObjectStatus =
  osGroup :: string
  osKind :: string
  osName :: string
  osLink :: string
  osStatus :: string

text \<open>
  Modelled from the spec: the Application's status sub-object and its aggregate condition.
  The type \<^verbatim>\<open>ApplicationStatus\<close> is declared in api/v1beta1, which is not among the sources.
  The source shows the fields \<^verbatim>\<open>ObservedGeneration\<close> and \<^verbatim>\<open>ComponentList.Objects\<close>; the
  condition follows the spec's data model: "a boolean/tri-state readiness, a
  machine-readable reason, and a human-readable message" (the transition timestamp is
  "not modeled explicitly in this minimal core").
\<close>

record AggregateCondition =
  condReady :: bool
  condReason :: string
  condMessage :: string

record ApplicationStatus =
  ObservedGeneration :: int
  ComponentList :: "ObjectStatus list"
  Condition :: "AggregateCondition option"

record ApplicationSpec =
  ComponentGroupKinds :: "GroupKind list"
  Selector :: "LabelSelector option"
  AddOwnerRef :: bool

record Application =
  appNamespace :: string
  appName :: string
  appUID :: string
  Generation :: int
  DeletionTimestamp :: "string option"
  Spec :: ApplicationSpec
  Status :: ApplicationStatus

text \<open>\<^verbatim>\<open>ctrl.Result\<close>; the controller never sets \<^verbatim>\<open>RequeueAfter\<close>.\<close>

record Result =
  Requeue :: bool

subsection \<open>The collaborators\<close>

text \<open>
  The reconciler's client and REST mapper, as the answers they give during one pass.
  \<^verbatim>\<open>Client.Update\<close> is called with resources (line 159) and with the Application
  (line 107): it has one field for each. It decodes the server's answer into the object it
  was given, so a successful update returns the object as stored.
\<close>

record ApplicationReconciler =
  Client_Get :: "NamespacedName \<Rightarrow> error + Application"
  Client_List :: "GroupVersionKind \<Rightarrow> string \<Rightarrow> (string \<times> string) list \<Rightarrow> error + Unstructured list"
  Client_Update :: "Unstructured \<Rightarrow> error + Unstructured"
  Client_UpdateApplication :: "Application \<Rightarrow> error + Application"
  Mapper_RESTMapping :: "GroupKind \<Rightarrow> error + GroupVersionKind"

text \<open>
  Declarations of the package and of api/v1beta1 that are not among the sources: the
  status evaluator \<^verbatim>\<open>status\<close>, the constant \<^verbatim>\<open>StatusReady\<close> and the API version string of
  \<^verbatim>\<open>appv1beta1.GroupVersion\<close>. They are parameters.
\<close>

record Package =
  status :: "Unstructured \<Rightarrow> error + string"
  StatusReady :: string
  GroupVersion :: string

subsection \<open>Trace, heap and context\<close>

datatype logEntry =
    NoMappingForGK GroupKind
  | ErrorSettingOwnerRef error GroupVersionKind string string
  | UnableToComputeStatus error GroupVersionKind string string

datatype event =
    CallGet NamespacedName
  | CallRESTMapping GroupKind
  | CallList GroupVersionKind string "(string \<times> string) list"
  | CallUpdate Unstructured
  | CallUpdateApplication Application
  | Log NamespacedName logEntry

record State =
  heap :: "Unstructured list"
  trace :: "event list"

definition emit :: "event \<Rightarrow> State \<Rightarrow> State" where
  "emit e st = st\<lparr>trace := trace st @ [e]\<rparr>"

text \<open>Dereferencing: a pointer that is no cell of the heap is the nil pointer.\<close>

definition load :: "Unstructured list \<Rightarrow> nat \<Rightarrow> Unstructured option" where
  "load h p = (if p < length h then Some (h ! p) else None)"

datatype panic = NoLogger | NilPointerDereference

text \<open>
  A \<^verbatim>\<open>context.Context\<close> as its key/value pairs; the logger is the logger of the
  reconciler with the value "application" = the request's name.
\<close>

type_synonym Context = "(string \<times> NamespacedName) list"

definition loggerCtxKey :: string where
  "loggerCtxKey = ''logger''"

definition getLoggerOrDie :: "Context \<Rightarrow> (panic + NamespacedName)" where
  "getLoggerOrDie ctx =
     (case map_of ctx loggerCtxKey of None \<Rightarrow> Inl NoLogger | Some logger \<Rightarrow> Inr logger)"

subsection \<open>fetchComponentListResources (lines 113-137)\<close>

text \<open>
  Lines 132-134: \<^verbatim>\<open>for _, u := range list.Items { resources = append(resources, &u) }\<close>.
  The variable \<open>u\<close> is one cell for the whole loop: each iteration assigns the item to it
  and appends the cell's address.
\<close>

fun rangeItems :: "nat \<Rightarrow> Unstructured list \<Rightarrow> nat list \<Rightarrow> Unstructured list
    \<Rightarrow> nat list \<times> Unstructured list" where
  "rangeItems u [] resources h = (resources, h)"
| "rangeItems u (item # items) resources h =
     rangeItems u items (resources @ [u]) (h[u := item])"

definition zeroUnstructured :: Unstructured where
  "zeroUnstructured =
     \<lparr>uGVK = \<lparr>gvkGroup = [], gvkVersion = [], gvkKind = []\<rparr>, uNamespace = [], uName = [],
      uSelfLink = [], uOwnerReferences = [], uConditions = []\<rparr>"

text \<open>
  Lines 116-135, the loop over \<open>groupKinds\<close>. The selector is a pointer: line 128 reads
  \<^verbatim>\<open>selector.MatchLabels\<close> before it calls \<^verbatim>\<open>List\<close>, and panics on nil.
\<close>

fun fetchLoop :: "ApplicationReconciler \<Rightarrow> NamespacedName \<Rightarrow> GroupKind list
    \<Rightarrow> LabelSelector option \<Rightarrow> string \<Rightarrow> nat list \<Rightarrow> State
    \<Rightarrow> panic + ((nat list \<times> error option) \<times> State)" where
  "fetchLoop r logger [] selector namespace resources st = Inr ((resources, None), st)"
| "fetchLoop r logger (gk # groupKinds) selector namespace resources st =
     (case Mapper_RESTMapping r gk of
        Inl err \<Rightarrow>
          fetchLoop r logger groupKinds selector namespace resources
            (emit (Log logger (NoMappingForGK gk)) (emit (CallRESTMapping gk) st))
      | Inr mapping \<Rightarrow>
          (case selector of
             None \<Rightarrow> Inl NilPointerDereference
           | Some sel \<Rightarrow>
               (let st1 = emit (CallList mapping namespace (MatchLabels sel))
                            (emit (CallRESTMapping gk) st)
                in case Client_List r mapping namespace (MatchLabels sel) of
                     Inl err \<Rightarrow> Inr ((resources, Some err), st1)
                   | Inr items \<Rightarrow>
                       (let u = length (heap st1);
                            (resources', h') =
                               rangeItems u items resources (heap st1 @ [zeroUnstructured])
                        in fetchLoop r logger groupKinds selector namespace resources'
                             (st1\<lparr>heap := h'\<rparr>)))))"

definition fetchComponentListResources :: "ApplicationReconciler \<Rightarrow> Context \<Rightarrow> GroupKind list
    \<Rightarrow> LabelSelector option \<Rightarrow> string \<Rightarrow> State
    \<Rightarrow> panic + ((nat list \<times> error option) \<times> State)" where
  "fetchComponentListResources r ctx groupKinds selector namespace st =
     (case getLoggerOrDie ctx of
        Inl p \<Rightarrow> Inl p
      | Inr logger \<Rightarrow> fetchLoop r logger groupKinds selector namespace [] st)"

subsection \<open>setOwnerRefForResources (lines 139-167)\<close>

text \<open>The test of lines 145-147.\<close>

definition sameOwner :: "OwnerReference \<Rightarrow> OwnerReference \<Rightarrow> bool" where
  "sameOwner ownerRef refs =
     (refKind ownerRef = refKind refs \<and> refAPIVersion ownerRef = refAPIVersion refs
      \<and> refName ownerRef = refName refs)"

text \<open>
  Lines 144-153: \<^verbatim>\<open>for i, refs := range ownerRefs\<close>, from index \<open>i\<close> on. The loop writes
  \<^verbatim>\<open>ownerRefs[i] = ownerRef\<close> into the slice it ranges over and does not stop at the first
  match.
\<close>

function scanOwnerRefs :: "OwnerReference \<Rightarrow> nat \<Rightarrow> OwnerReference list \<Rightarrow> bool
    \<Rightarrow> OwnerReference list \<times> bool" where
  "scanOwnerRefs ownerRef i ownerRefs ownerRefFound =
     (if i < length ownerRefs then
        (let refs = ownerRefs ! i in
         if sameOwner ownerRef refs then
           scanOwnerRefs ownerRef (Suc i)
             (if refUID ownerRef \<noteq> refUID refs then ownerRefs[i := ownerRef] else ownerRefs)
             True
         else scanOwnerRefs ownerRef (Suc i) ownerRefs ownerRefFound)
      else (ownerRefs, ownerRefFound))"
  by pat_completeness auto
termination
  by (relation "measure (\<lambda>(ownerRef, i, ownerRefs, ownerRefFound). length ownerRefs - i)") auto

declare scanOwnerRefs.simps [simp del]

text \<open>Lines 142-157: the owner references that line 158 stores into the resource.\<close>

definition claimedOwnerRefs :: "OwnerReference \<Rightarrow> OwnerReference list \<Rightarrow> OwnerReference list" where
  "claimedOwnerRefs ownerRef ownerRefs0 =
     (let (ownerRefs, ownerRefFound) = scanOwnerRefs ownerRef 0 ownerRefs0 False
      in if \<not> ownerRefFound then ownerRefs @ [ownerRef] else ownerRefs)"

text \<open>
  Lines 141-165, the loop over \<open>resources\<close>. A failed update is logged and the loop goes
  on; a successful one leaves the stored object in the cell.
\<close>

fun setOwnerRefLoop :: "ApplicationReconciler \<Rightarrow> NamespacedName \<Rightarrow> OwnerReference \<Rightarrow> nat list
    \<Rightarrow> State \<Rightarrow> panic + State" where
  "setOwnerRefLoop r logger ownerRef [] st = Inr st"
| "setOwnerRefLoop r logger ownerRef (resource # resources) st =
     (case load (heap st) resource of
        None \<Rightarrow> Inl NilPointerDereference
      | Some obj \<Rightarrow>
          (let obj' = obj\<lparr>uOwnerReferences := claimedOwnerRefs ownerRef (uOwnerReferences obj)\<rparr>;
               st1 = emit (CallUpdate obj') (st\<lparr>heap := (heap st)[resource := obj']\<rparr>)
           in case Client_Update r obj' of
                Inl err \<Rightarrow>
                  setOwnerRefLoop r logger ownerRef resources
                    (emit (Log logger
                       (ErrorSettingOwnerRef err (uGVK obj') (uNamespace obj') (uName obj'))) st1)
              | Inr stored \<Rightarrow>
                  setOwnerRefLoop r logger ownerRef resources
                    (st1\<lparr>heap := (heap st1)[resource := stored]\<rparr>)))"

definition setOwnerRefForResources :: "ApplicationReconciler \<Rightarrow> Context \<Rightarrow> OwnerReference
    \<Rightarrow> nat list \<Rightarrow> State \<Rightarrow> panic + (error option \<times> State)" where
  "setOwnerRefForResources r ctx ownerRef resources st =
     (case getLoggerOrDie ctx of
        Inl p \<Rightarrow> Inl p
      | Inr logger \<Rightarrow>
          (case setOwnerRefLoop r logger ownerRef resources st of
             Inl p \<Rightarrow> Inl p
           | Inr st' \<Rightarrow> Inr (None, st')))"

subsection \<open>objectStatuses (lines 169-190)\<close>

fun objectStatusesLoop :: "Package \<Rightarrow> NamespacedName \<Rightarrow> nat list \<Rightarrow> ObjectStatus list
    \<Rightarrow> State \<Rightarrow> panic + (ObjectStatus list \<times> State)" where
  "objectStatusesLoop pkg logger [] acc st = Inr (acc, st)"
| "objectStatusesLoop pkg logger (resource # resources) acc st =
     (case load (heap st) resource of
        None \<Rightarrow> Inl NilPointerDereference
      | Some obj \<Rightarrow>
          (let os = \<lparr>osGroup = gvkGroup (uGVK obj), osKind = gvkKind (uGVK obj),
                     osName = uName obj, osLink = uSelfLink obj, osStatus = []\<rparr>
           in case status pkg obj of
                Inl err \<Rightarrow>
                  objectStatusesLoop pkg logger resources acc
                    (emit (Log logger
                       (UnableToComputeStatus err (uGVK obj) (uNamespace obj) (uName obj))) st)
              | Inr s \<Rightarrow>
                  objectStatusesLoop pkg logger resources (acc @ [os\<lparr>osStatus := s\<rparr>]) st))"

definition objectStatuses :: "Package \<Rightarrow> Context \<Rightarrow> nat list \<Rightarrow> State
    \<Rightarrow> panic + (ObjectStatus list \<times> State)" where
  "objectStatuses pkg ctx resources st =
     (case getLoggerOrDie ctx of
        Inl p \<Rightarrow> Inl p
      | Inr logger \<Rightarrow> objectStatusesLoop pkg logger resources [] st)"

subsection \<open>aggregateReady (lines 192-199)\<close>

text \<open>
  The constant \<^verbatim>\<open>StatusReady\<close> is declared in another file of the package; it is a
  parameter here. The loop returns at the first entry whose status differs from it.
\<close>

fun aggregateReady :: "string \<Rightarrow> ObjectStatus list \<Rightarrow> bool" where
  "aggregateReady ready [] = True"
| "aggregateReady ready (os # objStatuses) =
     (if osStatus os \<noteq> ready then False
      else aggregateReady ready objStatuses)"

subsection \<open>Reconcile (lines 52-111)\<close>

text \<open>\<^verbatim>\<open>metav1.NewControllerRef\<close> of k8s.io/apimachinery.\<close>

definition NewControllerRef :: "Application \<Rightarrow> string \<Rightarrow> string \<Rightarrow> OwnerReference" where
  "NewControllerRef owner apiVersion kind =
     \<lparr>refAPIVersion = apiVersion, refKind = kind, refName = appName owner,
      refUID = appUID owner, refController = Some True, refBlockOwnerDeletion = Some True\<rparr>"

text \<open>
  Modelled from the spec: \<^verbatim>\<open>setReadyCondition\<close> and \<^verbatim>\<open>setNotReadyCondition\<close>, helpers of the
  package that are not among the sources. The spec: "set a Ready or NotReady condition
  with a fixed reason string accordingly".
\<close>

definition setReadyCondition :: "ApplicationStatus \<Rightarrow> string \<Rightarrow> string \<Rightarrow> ApplicationStatus" where
  "setReadyCondition appStatus reason message =
     appStatus\<lparr>Condition := Some \<lparr>condReady = True, condReason = reason, condMessage = message\<rparr>\<rparr>"

definition setNotReadyCondition :: "ApplicationStatus \<Rightarrow> string \<Rightarrow> string \<Rightarrow> ApplicationStatus" where
  "setNotReadyCondition appStatus reason message =
     appStatus\<lparr>Condition := Some \<lparr>condReady = False, condReason = reason, condMessage = message\<rparr>\<rparr>"

text \<open>
  \<^verbatim>\<open>equality.Semantic.DeepEqual\<close> of k8s.io/apimachinery takes two \<^verbatim>\<open>interface{}\<close> values and
  starts with \<^verbatim>\<open>if v1.Type() != v2.Type() { return false }\<close>; values of one type are compared
  structurally. An interface value is modelled with its dynamic type: a pointer to an
  \<^verbatim>\<open>ApplicationStatus\<close> or an \<^verbatim>\<open>ApplicationStatus\<close>.
\<close>

datatype iface = PtrApplicationStatus ApplicationStatus | ValApplicationStatus ApplicationStatus

fun DeepEqual :: "iface \<Rightarrow> iface \<Rightarrow> bool" where
  "DeepEqual (PtrApplicationStatus a1) (PtrApplicationStatus a2) = (a1 = a2)"
| "DeepEqual (ValApplicationStatus a1) (ValApplicationStatus a2) = (a1 = a2)"
| "DeepEqual _ _ = False"

text \<open>
  Lines 87-98: the candidate status. \<^verbatim>\<open>app.Status.DeepCopy()\<close> returns a pointer to a copy
  of the stored status, which the next lines overwrite in part.
\<close>

definition newApplicationStatus :: "Package \<Rightarrow> Application \<Rightarrow> ObjectStatus list \<Rightarrow> ApplicationStatus" where
  "newApplicationStatus pkg app objStatuses =
     (let aggReady = aggregateReady (StatusReady pkg) objStatuses;
          new = (Status app)\<lparr>ObservedGeneration := Generation app, ComponentList := objStatuses\<rparr>
      in if aggReady then setReadyCondition new ''ComponentsReady'' ''all components ready''
         else setNotReadyCondition new ''ComponentsNotReady'' ''some components not ready'')"

text \<open>
  Lines 102-110: the comparison and the write. Line 102 passes the pointer
  \<^verbatim>\<open>newApplicationStatus\<close> and the struct \<^verbatim>\<open>app.Status\<close>: line 106 assigns
  \<^verbatim>\<open>*newApplicationStatus\<close> to \<^verbatim>\<open>app.Status\<close>, so the first is a
  \<^verbatim>\<open>*ApplicationStatus\<close> and the second an \<^verbatim>\<open>ApplicationStatus\<close>.
\<close>

definition writeStatus :: "ApplicationReconciler \<Rightarrow> Application \<Rightarrow> ApplicationStatus \<Rightarrow> State
    \<Rightarrow> (Result \<times> error option) \<times> State" where
  "writeStatus r app new st =
     (if DeepEqual (PtrApplicationStatus new) (ValApplicationStatus (Status app))
      then ((\<lparr>Requeue = False\<rparr>, None), st)
      else (let app' = app\<lparr>Status := new\<rparr>;
                st' = emit (CallUpdateApplication app') st
            in case Client_UpdateApplication r app' of
                 Inl err \<Rightarrow> ((\<lparr>Requeue = True\<rparr>, Some err), st')
               | Inr stored \<Rightarrow> ((\<lparr>Requeue = False\<rparr>, None), st')))"

text \<open>Lines 76-82: the ownership step, run only when the Application asks for it.\<close>

definition claimOwnership :: "ApplicationReconciler \<Rightarrow> Package \<Rightarrow> Context \<Rightarrow> Application
    \<Rightarrow> nat list \<Rightarrow> State \<Rightarrow> panic + (error option \<times> State)" where
  "claimOwnership r pkg ctx app resources st =
     (if AddOwnerRef (Spec app) then
        setOwnerRefForResources r ctx
          ((NewControllerRef app (GroupVersion pkg) ''Application'')\<lparr>refController := Some False\<rparr>)
          resources st
      else Inr (None, st))"

text \<open>Lines 71-110: the pass over an Application that was fetched and is not being deleted.\<close>

definition reconcileApplication :: "ApplicationReconciler \<Rightarrow> Package \<Rightarrow> Context \<Rightarrow> Application
    \<Rightarrow> State \<Rightarrow> panic + ((Result \<times> error option) \<times> State)" where
  "reconcileApplication r pkg ctx app st =
     (case fetchComponentListResources r ctx (ComponentGroupKinds (Spec app))
             (Selector (Spec app)) (appNamespace app) st of
        Inl p \<Rightarrow> Inl p
      | Inr ((resources, Some err), st1) \<Rightarrow> Inr ((\<lparr>Requeue = True\<rparr>, Some err), st1)
      | Inr ((resources, None), st1) \<Rightarrow>
          (case claimOwnership r pkg ctx app resources st1 of
             Inl p \<Rightarrow> Inl p
           | Inr (Some err, st2) \<Rightarrow> Inr ((\<lparr>Requeue = True\<rparr>, Some err), st2)
           | Inr (None, st2) \<Rightarrow>
               (case objectStatuses pkg ctx resources st2 of
                  Inl p \<Rightarrow> Inl p
                | Inr (objStatuses, st3) \<Rightarrow>
                    Inr (writeStatus r app (newApplicationStatus pkg app objStatuses) st3))))"

definition Reconcile :: "ApplicationReconciler \<Rightarrow> Package \<Rightarrow> NamespacedName
    \<Rightarrow> panic + ((Result \<times> error option) \<times> State)" where
  "Reconcile r pkg req =
     (let ctx = [(loggerCtxKey, req)];
          st = emit (CallGet req) \<lparr>heap = [], trace = []\<rparr>
      in case Client_Get r req of
           Inl err \<Rightarrow>
             if IsNotFound err then Inr ((\<lparr>Requeue = False\<rparr>, None), st)
             else Inr ((\<lparr>Requeue = True\<rparr>, Some err), st)
         | Inr app \<Rightarrow>
             if DeletionTimestamp app \<noteq> None then Inr ((\<lparr>Requeue = False\<rparr>, None), st)
             else reconcileApplication r pkg ctx app st)"

subsection \<open>Reading a trace\<close>

text \<open>The Applications that a pass sent to \<^verbatim>\<open>Client.Update\<close>, in order.\<close>

fun applicationWrites :: "event list \<Rightarrow> Application list" where
  "applicationWrites [] = []"
| "applicationWrites (CallUpdateApplication app # es) = app # applicationWrites es"
| "applicationWrites (e # es) = applicationWrites es"

subsection \<open>The spec's words for the ownership scan\<close>

text \<open>
  The spec's section 4.2: "If found and the unique identifier differs, overwrite that
  entry in place". This is what the spec asks of one entry; the loop of the source is
  \<open>scanOwnerRefs\<close>, and the two are compared below.
\<close>

definition overwritten :: "OwnerReference \<Rightarrow> OwnerReference \<Rightarrow> OwnerReference" where
  "overwritten ownerRef refs =
     (if sameOwner ownerRef refs \<and> refUID ownerRef \<noteq> refUID refs then ownerRef else refs)"

text \<open>
  The spec's section 4.2 for one resource: the object with the claimed owner references is
  written back; a failed write is logged and leaves the object as claimed, a successful one
  leaves the object the server stored.
\<close>

definition claimedObject :: "OwnerReference \<Rightarrow> Unstructured \<Rightarrow> Unstructured" where
  "claimedObject ownerRef obj =
     obj\<lparr>uOwnerReferences := claimedOwnerRefs ownerRef (uOwnerReferences obj)\<rparr>"

definition afterClaim :: "ApplicationReconciler \<Rightarrow> OwnerReference \<Rightarrow> Unstructured \<Rightarrow> Unstructured" where
  "afterClaim r ownerRef obj =
     (case Client_Update r (claimedObject ownerRef obj) of
        Inl err \<Rightarrow> claimedObject ownerRef obj
      | Inr stored \<Rightarrow> stored)"

definition claimEvents :: "ApplicationReconciler \<Rightarrow> NamespacedName \<Rightarrow> OwnerReference \<Rightarrow> Unstructured
    \<Rightarrow> event list" where
  "claimEvents r logger ownerRef obj =
     (let obj' = claimedObject ownerRef obj
      in CallUpdate obj' #
         (case Client_Update r obj' of
            Inl err \<Rightarrow> [Log logger
                (ErrorSettingOwnerRef err (uGVK obj') (uNamespace obj') (uName obj'))]
          | Inr stored \<Rightarrow> []))"

subsection \<open>The spec's words for the status list\<close>



subsection \<open>A cluster to run the controller on\<close>

text \<open>
  The end-to-end scenario of the spec's section 8: the Application \<open>app1\<close> selects the kind
  Widget with the label app=app1, and the cluster holds the given Widgets. The status
  evaluator of the scenario reads the Widget's Ready condition; an object without one is
  unreadable.
\<close>

definition widgetGK :: GroupKind where
  "widgetGK = \<lparr>gkGroup = ''example.com'', gkKind = ''Widget''\<rparr>"

definition widgetGVK :: GroupVersionKind where
  "widgetGVK = \<lparr>gvkGroup = ''example.com'', gvkVersion = ''v1'', gvkKind = ''Widget''\<rparr>"

definition widget :: "string \<Rightarrow> (string \<times> string) list \<Rightarrow> Unstructured" where
  "widget name conditions =
     \<lparr>uGVK = widgetGVK, uNamespace = ''default'', uName = name, uSelfLink = [],
      uOwnerReferences = [], uConditions = conditions\<rparr>"

definition readyCondition :: "Unstructured \<Rightarrow> error + string" where
  "readyCondition obj =
     (case map_of (uConditions obj) ''Ready'' of
        None \<Rightarrow> Inl (ServerError ''unreadable'')
      | Some v \<Rightarrow> Inr (if v = ''True'' then ''Ready'' else ''InProgress''))"

definition scenario :: Package where
  "scenario = \<lparr>status = readyCondition, StatusReady = ''Ready'',
               GroupVersion = ''app.k8s.io/v1beta1''\<rparr>"

definition app1 :: Application where
  "app1 =
     \<lparr>appNamespace = ''default'', appName = ''app1'', appUID = ''uid-1'', Generation = 1,
      DeletionTimestamp = None,
      Spec = \<lparr>ComponentGroupKinds = [widgetGK],
              Selector = Some \<lparr>MatchLabels = [(''app'', ''app1'')]\<rparr>, AddOwnerRef = False\<rparr>,
      Status = \<lparr>ObservedGeneration = 0, ComponentList = [], Condition = None\<rparr>\<rparr>"

definition cluster :: "Application \<Rightarrow> Unstructured list \<Rightarrow> ApplicationReconciler" where
  "cluster app widgets =
     \<lparr>Client_Get = (\<lambda>req. if req = (appNamespace app, appName app) then Inr app
                           else Inl (NotFound ''applications'')),
      Client_List = (\<lambda>gvk namespace labels. Inr widgets),
      Client_Update = (\<lambda>obj. Inr obj),
      Client_UpdateApplication = (\<lambda>app'. Inr app'),
      Mapper_RESTMapping = (\<lambda>gk. if gk = widgetGK then Inr widgetGVK
                                  else Inl (NoKindMatch (gkKind gk)))\<rparr>"

definition app1Owner :: OwnerReference where
  "app1Owner = (NewControllerRef app1 ''app.k8s.io/v1beta1'' ''Application'')\<lparr>refController := Some False\<rparr>"

text \<open>\<open>app1\<close> asking for owner references on its components.\<close>

definition owningApp1 :: Application where
  "owningApp1 = app1\<lparr>Spec := (Spec app1)\<lparr>AddOwnerRef := True\<rparr>\<rparr>"

text \<open>
  \<open>app1\<close> as a pass over one ready Widget \<open>a\<close> leaves it: the stored status is the status
  that the next pass over the same cluster composes.
\<close>

definition settledApp1 :: Application where
  "settledApp1 = app1\<lparr>Status :=
      \<lparr>ObservedGeneration = 1,
       ComponentList = [\<lparr>osGroup = ''example.com'', osKind = ''Widget'', osName = ''a'',
                         osLink = [], osStatus = ''Ready''\<rparr>],
       Condition = Some \<lparr>condReady = True, condReason = ''ComponentsReady'',
                          condMessage = ''all components ready''\<rparr>\<rparr>\<rparr>"

section \<open>Aggregation\<close>

text \<open>
  C2. For every list of ObjectStatus entries, aggregateReady returns true if and only if
  every entry's classification equals the Ready classification; for the empty list it
  returns true.
\<close>

theorem aggregateReady_iff_all_ready:
  "aggregateReady ready objStatuses
     = (\<forall>os \<in> set objStatuses. osStatus os = ready)
   \<and> aggregateReady ready [] = True"
  by (induction objStatuses) auto

theorem aggregateReady_iff_all_ready_witness:
  "aggregateReady ''Ready''
     [\<lparr>osGroup = ''apps'', osKind = ''Deployment'', osName = ''a'', osLink = [], osStatus = ''Ready''\<rparr>,
      \<lparr>osGroup = ''apps'', osKind = ''Deployment'', osName = ''b'', osLink = [], osStatus = ''InProgress''\<rparr>]
     = False
   \<and> aggregateReady ''Ready''
     [\<lparr>osGroup = ''apps'', osKind = ''Deployment'', osName = ''a'', osLink = [], osStatus = ''Ready''\<rparr>]
     = True"
  using aggregateReady_iff_all_ready [of "''Ready''"
      "[\<lparr>osGroup = ''apps'', osKind = ''Deployment'', osName = ''a'', osLink = [], osStatus = ''Ready''\<rparr>,
        \<lparr>osGroup = ''apps'', osKind = ''Deployment'', osName = ''b'', osLink = [], osStatus = ''InProgress''\<rparr>]"]
    aggregateReady_iff_all_ready [of "''Ready''"
      "[\<lparr>osGroup = ''apps'', osKind = ''Deployment'', osName = ''a'', osLink = [], osStatus = ''Ready''\<rparr>]"]
  by simp

section \<open>Ownership\<close>

lemma scanOwnerRefs_eq:
  "i \<le> length xs \<Longrightarrow> scanOwnerRefs ownerRef i xs f =
     (take i xs @ map (overwritten ownerRef) (drop i xs),
      f \<or> (\<exists>refs \<in> set (drop i xs). sameOwner ownerRef refs))"
proof (induction ownerRef i xs f rule: scanOwnerRefs.induct)
  case (1 ownerRef i ownerRefs ownerRefFound)
  show ?case
  proof (cases "i < length ownerRefs")
    case False
    with "1.prems" show ?thesis by (simp add: scanOwnerRefs.simps)
  next
    case True
    then have d: "drop i ownerRefs = ownerRefs ! i # drop (Suc i) ownerRefs"
      by (simp add: Cons_nth_drop_Suc)
    have t: "take (Suc i) ownerRefs = take i ownerRefs @ [ownerRefs ! i]"
      using True by (simp add: take_Suc_conv_app_nth)
    show ?thesis
    proof (cases "sameOwner ownerRef (ownerRefs ! i)")
      case same: True
      show ?thesis
      proof (cases "refUID ownerRef \<noteq> refUID (ownerRefs ! i)")
        case diff: True
        have "scanOwnerRefs ownerRef i ownerRefs ownerRefFound
              = scanOwnerRefs ownerRef (Suc i) (ownerRefs[i := ownerRef]) True"
          using True same diff by (subst scanOwnerRefs.simps) simp
        also have "\<dots> = (take (Suc i) (ownerRefs[i := ownerRef])
                   @ map (overwritten ownerRef) (drop (Suc i) (ownerRefs[i := ownerRef])),
                 True \<or> (\<exists>refs \<in> set (drop (Suc i) (ownerRefs[i := ownerRef])). sameOwner ownerRef refs))"
          using "1.IH"(1)[OF True refl same] True diff by simp
        finally show ?thesis
          using True same diff by (simp add: d overwritten_def take_Suc_conv_app_nth)
      next
        case False
        have "scanOwnerRefs ownerRef i ownerRefs ownerRefFound
              = scanOwnerRefs ownerRef (Suc i) ownerRefs True"
          using True same False by (subst scanOwnerRefs.simps) simp
        also have "\<dots> = (take (Suc i) ownerRefs
                   @ map (overwritten ownerRef) (drop (Suc i) ownerRefs),
                 True \<or> (\<exists>refs \<in> set (drop (Suc i) ownerRefs). sameOwner ownerRef refs))"
          using "1.IH"(1)[OF True refl same] True False by simp
        finally show ?thesis
          using True same False by (simp add: d t overwritten_def)
      qed
    next
      case False
      have "scanOwnerRefs ownerRef i ownerRefs ownerRefFound
              = scanOwnerRefs ownerRef (Suc i) ownerRefs ownerRefFound"
        using True False by (subst scanOwnerRefs.simps) simp
      also have "\<dots> = (take (Suc i) ownerRefs
                   @ map (overwritten ownerRef) (drop (Suc i) ownerRefs),
                 ownerRefFound \<or> (\<exists>refs \<in> set (drop (Suc i) ownerRefs). sameOwner ownerRef refs))"
        using "1.IH"(2)[OF True refl False] True by simp
      finally show ?thesis
        using True False by (simp add: d t overwritten_def)
    qed
  qed
qed



lemma claimedOwnerRefs_eq:
  "claimedOwnerRefs ownerRef xs =
     map (overwritten ownerRef) xs @ (if \<exists>refs \<in> set xs. sameOwner ownerRef refs then [] else [ownerRef])"
proof -
  have "scanOwnerRefs ownerRef 0 xs False
     = (map (overwritten ownerRef) xs, \<exists>refs \<in> set xs. sameOwner ownerRef refs)"
    using scanOwnerRefs_eq [of 0 xs ownerRef False] by simp
  then show ?thesis
    by (simp add: claimedOwnerRefs_def)
qed

lemma sameOwner_refl: "sameOwner ownerRef ownerRef"
  by (simp add: sameOwner_def)

lemma overwritten_same: "sameOwner ownerRef (overwritten ownerRef refs) = sameOwner ownerRef refs"
  by (simp add: overwritten_def sameOwner_refl)

lemma overwritten_idem: "overwritten ownerRef (overwritten ownerRef refs) = overwritten ownerRef refs"
  by (simp add: overwritten_def)

lemma claimedOwnerRefs_found: "\<exists>refs \<in> set (claimedOwnerRefs ownerRef xs). sameOwner ownerRef refs"
proof (cases "\<exists>refs \<in> set xs. sameOwner ownerRef refs")
  case True
  then obtain x where "x \<in> set xs" "sameOwner ownerRef x" by blast
  then have "overwritten ownerRef x \<in> set (claimedOwnerRefs ownerRef xs)" "sameOwner ownerRef (overwritten ownerRef x)"
    by (simp_all add: claimedOwnerRefs_eq overwritten_same)
  then show ?thesis by blast
next
  case False
  then have "ownerRef \<in> set (claimedOwnerRefs ownerRef xs)"
    by (simp add: claimedOwnerRefs_eq)
  then show ?thesis using sameOwner_refl by blast
qed

lemma overwritten_claimed: "map (overwritten ownerRef) (claimedOwnerRefs ownerRef xs) = claimedOwnerRefs ownerRef xs"
  by (simp add: claimedOwnerRefs_eq overwritten_idem) (simp add: overwritten_def)

lemma claimedOwnerRefs_idem: "claimedOwnerRefs ownerRef (claimedOwnerRefs ownerRef xs) = claimedOwnerRefs ownerRef xs"
proof -
  have "claimedOwnerRefs ownerRef (claimedOwnerRefs ownerRef xs)
      = map (overwritten ownerRef) (claimedOwnerRefs ownerRef xs)"
    using claimedOwnerRefs_found [of ownerRef xs]
    by (subst claimedOwnerRefs_eq) simp
  then show ?thesis by (simp add: overwritten_claimed)
qed


lemma filter_overwritten:
  "filter (sameOwner ownerRef) (map (overwritten ownerRef) xs) = map (overwritten ownerRef) (filter (sameOwner ownerRef) xs)"
  by (induction xs) (simp_all add: overwritten_same)

lemma claimedOwnerRefs_count:
  "length (filter (sameOwner ownerRef) (claimedOwnerRefs ownerRef xs))
     = max 1 (length (filter (sameOwner ownerRef) xs))"
proof (cases "\<exists>refs \<in> set xs. sameOwner ownerRef refs")
  case True
  then have "filter (sameOwner ownerRef) xs \<noteq> []"
    by (simp add: filter_empty_conv)
  then have "1 \<le> length (filter (sameOwner ownerRef) xs)"
    by (cases "filter (sameOwner ownerRef) xs") simp_all
  with True show ?thesis
    by (simp add: claimedOwnerRefs_eq filter_overwritten)
next
  case False
  then have "filter (sameOwner ownerRef) xs = []"
    by (simp add: filter_empty_conv)
  with False show ?thesis
    by (simp add: claimedOwnerRefs_eq filter_overwritten sameOwner_refl)
qed

lemma setOwnerRefForResources_single:
  assumes "load (heap st) p = Some obj"
  shows "setOwnerRefForResources r [(loggerCtxKey, logger)] ownerRef [p] st =
     (let obj' = obj\<lparr>uOwnerReferences := claimedOwnerRefs ownerRef (uOwnerReferences obj)\<rparr>
      in case Client_Update r obj' of
           Inl err \<Rightarrow> Inr (None, \<lparr>heap = (heap st)[p := obj'],
                 trace = trace st @ [CallUpdate obj', Log logger
                       (ErrorSettingOwnerRef err (uGVK obj') (uNamespace obj') (uName obj'))]\<rparr>)
         | Inr stored \<Rightarrow> Inr (None, \<lparr>heap = (heap st)[p := stored], trace = trace st @ [CallUpdate obj']\<rparr>))"
  using assms
  by (simp add: setOwnerRefForResources_def getLoggerOrDie_def emit_def Let_def split: sum.splits)


lemma filter_le_one_unique:
  "length (filter P xs) \<le> 1 \<Longrightarrow> a \<in> set xs \<Longrightarrow> b \<in> set xs \<Longrightarrow> P a \<Longrightarrow> P b \<Longrightarrow> a = b"
proof (induction xs)
  case Nil
  then show ?case by simp
next
  case (Cons x xs)
  show ?case
  proof (cases "P x")
    case True
    with Cons.prems(1) have "filter P xs = []" by simp
    then have "\<forall>y \<in> set xs. \<not> P y" by (simp add: filter_empty_conv)
    with Cons.prems show ?thesis by auto
  next
    case False
    with Cons show ?thesis by auto
  qed
qed

lemma overwritten_inj_on:
  assumes "length (filter (sameOwner ownerRef) xs) \<le> 1"
  shows "inj_on (overwritten ownerRef) (set xs)"
proof (rule inj_onI)
  fix a b
  assume a: "a \<in> set xs" and b: "b \<in> set xs" and eq: "overwritten ownerRef a = overwritten ownerRef b"
  have s: "sameOwner ownerRef a = sameOwner ownerRef b"
    using overwritten_same [of ownerRef a] overwritten_same [of ownerRef b] eq by simp
  show "a = b"
  proof (cases "sameOwner ownerRef a")
    case True
    with s assms a b show ?thesis by (metis filter_le_one_unique)
  next
    case False
    with s eq show ?thesis by (simp add: overwritten_def)
  qed
qed

lemma claimedOwnerRefs_distinct:
  assumes "distinct xs" and "length (filter (sameOwner ownerRef) xs) \<le> 1"
  shows "distinct (claimedOwnerRefs ownerRef xs)"
proof -
  have d: "distinct (map (overwritten ownerRef) xs)"
    using assms by (simp add: distinct_map overwritten_inj_on)
  show ?thesis
  proof (cases "\<exists>refs \<in> set xs. sameOwner ownerRef refs")
    case True
    with d show ?thesis by (simp add: claimedOwnerRefs_eq)
  next
    case False
    then have "\<forall>y \<in> set (map (overwritten ownerRef) xs). \<not> sameOwner ownerRef y"
      by (simp add: overwritten_same)
    then have "ownerRef \<notin> set (map (overwritten ownerRef) xs)"
      using sameOwner_refl by blast
    with d False show ?thesis by (simp add: claimedOwnerRefs_eq)
  qed
qed

lemma State_update_all: "st\<lparr>heap := h, trace := t\<rparr> = \<lparr>heap = h, trace = t\<rparr>"
  by (cases st) simp

lemma setOwnerRefLoop_step:
  assumes "p < length (heap st)"
  shows "setOwnerRefLoop r logger ownerRef (p # ps) st =
     setOwnerRefLoop r logger ownerRef ps
       \<lparr>heap = (heap st)[p := afterClaim r ownerRef (heap st ! p)],
        trace = trace st @ claimEvents r logger ownerRef (heap st ! p)\<rparr>"
proof -
  have l: "load (heap st) p = Some (heap st ! p)"
    using assms by (simp add: load_def)
  show ?thesis
  proof (cases "Client_Update r (claimedObject ownerRef (heap st ! p))")
    case (Inl err)
    then show ?thesis
      using l by (simp add: afterClaim_def claimEvents_def claimedObject_def emit_def Let_def
          State_update_all)
  next
    case (Inr stored)
    then show ?thesis
      using l by (simp add: afterClaim_def claimEvents_def claimedObject_def emit_def Let_def
          State_update_all)
  qed
qed

lemma setOwnerRefLoop_distinct:
  "distinct ps \<Longrightarrow> \<forall>p \<in> set ps. p < length (heap st) \<Longrightarrow>
   setOwnerRefLoop r logger ownerRef ps st =
     Inr \<lparr>heap = map (\<lambda>q. if q \<in> set ps then afterClaim r ownerRef (heap st ! q) else heap st ! q)
                  [0..<length (heap st)],
          trace = trace st @ concat (map (\<lambda>p. claimEvents r logger ownerRef (heap st ! p)) ps)\<rparr>"
proof (induction ps arbitrary: st)
  case Nil
  have "map ((!) (heap st)) [0..<length (heap st)] = heap st"
    by (rule map_nth)
  then show ?case by simp
next
  case (Cons p ps)
  let ?st1 = "\<lparr>heap = (heap st)[p := afterClaim r ownerRef (heap st ! p)],
        trace = trace st @ claimEvents r logger ownerRef (heap st ! p)\<rparr>"
  have p: "p < length (heap st)" and np: "p \<notin> set ps" and d: "distinct ps"
    using Cons.prems by simp_all
  have v: "\<forall>q \<in> set ps. q < length (heap ?st1)"
    using Cons.prems by simp
  have same: "heap ?st1 ! q = heap st ! q" if "q \<in> set ps" for q
  proof -
    from that np have "q \<noteq> p" by blast
    then show ?thesis by simp
  qed
  have ev: "map (\<lambda>q. claimEvents r logger ownerRef (heap ?st1 ! q)) ps
      = map (\<lambda>q. claimEvents r logger ownerRef (heap st ! q)) ps"
    using same by (intro map_cong) simp_all
  have hp: "map (\<lambda>q. if q \<in> set ps then afterClaim r ownerRef (heap ?st1 ! q) else heap ?st1 ! q)
                  [0..<length (heap ?st1)]
      = map (\<lambda>q. if q \<in> set (p # ps) then afterClaim r ownerRef (heap st ! q) else heap st ! q)
                  [0..<length (heap st)]"
    using np p by (intro nth_equalityI) (auto simp add: nth_list_update)
  show ?case
    unfolding setOwnerRefLoop_step [OF p] Cons.IH [OF d v] ev hp
    by simp
qed

lemma setOwnerRefForResources_append:
  "setOwnerRefForResources r ctx ownerRef (ps @ qs) st =
     (case setOwnerRefForResources r ctx ownerRef ps st of
        Inl e \<Rightarrow> Inl e
      | Inr (e, st1) \<Rightarrow> setOwnerRefForResources r ctx ownerRef qs st1)"
proof (cases "getLoggerOrDie ctx")
  case (Inl e)
  then show ?thesis by (simp add: setOwnerRefForResources_def)
next
  case (Inr logger)
  have "setOwnerRefLoop r logger ownerRef (ps @ qs) st =
     (case setOwnerRefLoop r logger ownerRef ps st of
        Inl e \<Rightarrow> Inl e
      | Inr st1 \<Rightarrow> setOwnerRefLoop r logger ownerRef qs st1)" for st
  proof (induction ps arbitrary: st)
    case Nil
    show ?case by simp
  next
    case (Cons p ps)
    show ?case
      by (simp add: Cons.IH Let_def split: option.splits sum.splits)
  qed
  with Inr show ?thesis
    by (simp add: setOwnerRefForResources_def split: sum.splits)
qed

text \<open>
  C3. For every resource and every owner reference, setOwnerRefForResources scans the
  resource's owner references for entries matching on (kind, apiVersion, name); every
  entry that matches and whose UID differs is overwritten in place, and when no entry
  matches the owner reference is appended. Applying the claim a second time leaves the
  list as the first application left it and adds no entry: the list then holds as many
  entries for the owner as before, and one if it held none. On a list without duplicates
  that holds at most one entry for the owner, the claim produces no duplicate. The
  function does this for each resource of its list in turn: for one resource, for none,
  for a list cut in two, and, when the pointers are distinct objects, each listed object
  ends as claimed (or as the server stored it), every other object is untouched, and the
  server receives one update per resource, in order.
\<close>

theorem setOwnerRefForResources_claims_owner_once:
  "claimedOwnerRefs ownerRef ownerRefs =
      map (\<lambda>refs. if sameOwner ownerRef refs \<and> refUID ownerRef \<noteq> refUID refs then ownerRef else refs)
        ownerRefs
      @ (if \<exists>refs \<in> set ownerRefs. sameOwner ownerRef refs then [] else [ownerRef])
   \<and> claimedOwnerRefs ownerRef (claimedOwnerRefs ownerRef ownerRefs)
       = claimedOwnerRefs ownerRef ownerRefs
   \<and> length (filter (sameOwner ownerRef) (claimedOwnerRefs ownerRef (claimedOwnerRefs ownerRef ownerRefs)))
       = max 1 (length (filter (sameOwner ownerRef) ownerRefs))
   \<and> (distinct ownerRefs \<and> length (filter (sameOwner ownerRef) ownerRefs) \<le> 1
        \<longrightarrow> distinct (claimedOwnerRefs ownerRef (claimedOwnerRefs ownerRef ownerRefs)))
   \<and> (load (heap st) p = Some obj \<longrightarrow>
        setOwnerRefForResources r [(loggerCtxKey, logger)] ownerRef [p] st =
          (let obj' = obj\<lparr>uOwnerReferences := claimedOwnerRefs ownerRef (uOwnerReferences obj)\<rparr>
           in case Client_Update r obj' of
                Inl err \<Rightarrow> Inr (None, \<lparr>heap = (heap st)[p := obj'],
                    trace = trace st @ [CallUpdate obj', Log logger
                       (ErrorSettingOwnerRef err (uGVK obj') (uNamespace obj') (uName obj'))]\<rparr>)
              | Inr stored \<Rightarrow>
                  Inr (None, \<lparr>heap = (heap st)[p := stored], trace = trace st @ [CallUpdate obj']\<rparr>)))
   \<and> setOwnerRefForResources r [(loggerCtxKey, logger)] ownerRef [] st = Inr (None, st)
   \<and> setOwnerRefForResources r ctx ownerRef (ps @ qs) st =
        (case setOwnerRefForResources r ctx ownerRef ps st of
           Inl e \<Rightarrow> Inl e
         | Inr (e, st1) \<Rightarrow> setOwnerRefForResources r ctx ownerRef qs st1)
   \<and> (distinct ps \<and> (\<forall>q \<in> set ps. q < length (heap st)) \<longrightarrow>
        setOwnerRefForResources r [(loggerCtxKey, logger)] ownerRef ps st =
          Inr (None,
               \<lparr>heap = map (\<lambda>q. if q \<in> set ps then afterClaim r ownerRef (heap st ! q)
                                 else heap st ! q) [0..<length (heap st)],
                trace = trace st
                  @ concat (map (\<lambda>q. claimEvents r logger ownerRef (heap st ! q)) ps)\<rparr>))"
proof (intro conjI impI)
  show "claimedOwnerRefs ownerRef ownerRefs =
      map (\<lambda>refs. if sameOwner ownerRef refs \<and> refUID ownerRef \<noteq> refUID refs then ownerRef else refs)
        ownerRefs
      @ (if \<exists>refs \<in> set ownerRefs. sameOwner ownerRef refs then [] else [ownerRef])"
    unfolding claimedOwnerRefs_eq overwritten_def [abs_def] by (rule refl)
  show "claimedOwnerRefs ownerRef (claimedOwnerRefs ownerRef ownerRefs)
      = claimedOwnerRefs ownerRef ownerRefs"
    by (rule claimedOwnerRefs_idem)
  show "length (filter (sameOwner ownerRef) (claimedOwnerRefs ownerRef (claimedOwnerRefs ownerRef ownerRefs)))
       = max 1 (length (filter (sameOwner ownerRef) ownerRefs))"
    by (simp add: claimedOwnerRefs_idem claimedOwnerRefs_count)
  show "distinct (claimedOwnerRefs ownerRef (claimedOwnerRefs ownerRef ownerRefs))"
    if "distinct ownerRefs \<and> length (filter (sameOwner ownerRef) ownerRefs) \<le> 1"
    using that by (simp add: claimedOwnerRefs_idem claimedOwnerRefs_distinct)
  show "setOwnerRefForResources r [(loggerCtxKey, logger)] ownerRef [p] st =
          (let obj' = obj\<lparr>uOwnerReferences := claimedOwnerRefs ownerRef (uOwnerReferences obj)\<rparr>
           in case Client_Update r obj' of
                Inl err \<Rightarrow> Inr (None, \<lparr>heap = (heap st)[p := obj'],
                    trace = trace st @ [CallUpdate obj', Log logger
                       (ErrorSettingOwnerRef err (uGVK obj') (uNamespace obj') (uName obj'))]\<rparr>)
              | Inr stored \<Rightarrow>
                  Inr (None, \<lparr>heap = (heap st)[p := stored], trace = trace st @ [CallUpdate obj']\<rparr>))"
    if "load (heap st) p = Some obj"
    using that by (rule setOwnerRefForResources_single)
  show "setOwnerRefForResources r [(loggerCtxKey, logger)] ownerRef [] st = Inr (None, st)"
    by (simp add: setOwnerRefForResources_def getLoggerOrDie_def)
  show "setOwnerRefForResources r ctx ownerRef (ps @ qs) st =
        (case setOwnerRefForResources r ctx ownerRef ps st of
           Inl e \<Rightarrow> Inl e
         | Inr (e, st1) \<Rightarrow> setOwnerRefForResources r ctx ownerRef qs st1)"
    by (rule setOwnerRefForResources_append)
  show "setOwnerRefForResources r [(loggerCtxKey, logger)] ownerRef ps st =
          Inr (None,
               \<lparr>heap = map (\<lambda>q. if q \<in> set ps then afterClaim r ownerRef (heap st ! q)
                                 else heap st ! q) [0..<length (heap st)],
                trace = trace st
                  @ concat (map (\<lambda>q. claimEvents r logger ownerRef (heap st ! q)) ps)\<rparr>)"
    if "distinct ps \<and> (\<forall>q \<in> set ps. q < length (heap st))"
  proof -
    from that have "setOwnerRefLoop r logger ownerRef ps st =
       Inr \<lparr>heap = map (\<lambda>q. if q \<in> set ps then afterClaim r ownerRef (heap st ! q)
                                 else heap st ! q) [0..<length (heap st)],
            trace = trace st
                  @ concat (map (\<lambda>q. claimEvents r logger ownerRef (heap st ! q)) ps)\<rparr>"
      by (intro setOwnerRefLoop_distinct) simp_all
    then show ?thesis
      by (simp add: setOwnerRefForResources_def getLoggerOrDie_def)
  qed
qed

text \<open>
  The owner of \<open>app1\<close> claims two Widgets, the first of which carries a reference to an
  earlier Application of the same name (another UID): that reference is overwritten, the
  second Widget gets the reference appended, and each object is sent to the server once.
\<close>

theorem setOwnerRefForResources_claims_owner_once_witness:
  "claimedOwnerRefs app1Owner [app1Owner\<lparr>refUID := ''uid-0''\<rparr>] = [app1Owner]
   \<and> claimedOwnerRefs app1Owner (claimedOwnerRefs app1Owner [app1Owner\<lparr>refUID := ''uid-0''\<rparr>])
       = claimedOwnerRefs app1Owner [app1Owner\<lparr>refUID := ''uid-0''\<rparr>]
   \<and> distinct (claimedOwnerRefs app1Owner (claimedOwnerRefs app1Owner [app1Owner\<lparr>refUID := ''uid-0''\<rparr>]))
   \<and> setOwnerRefForResources (cluster app1 []) [(loggerCtxKey, (''default'', ''app1''))] app1Owner [0]
        \<lparr>heap = [(widget ''a'' [])\<lparr>uOwnerReferences := [app1Owner\<lparr>refUID := ''uid-0''\<rparr>]\<rparr>], trace = []\<rparr>
      = Inr (None, \<lparr>heap = [(widget ''a'' [])\<lparr>uOwnerReferences := [app1Owner]\<rparr>],
                    trace = [CallUpdate ((widget ''a'' [])\<lparr>uOwnerReferences := [app1Owner]\<rparr>)]\<rparr>)
   \<and> setOwnerRefForResources (cluster app1 []) [(loggerCtxKey, (''default'', ''app1''))] app1Owner
        [0, 1]
        \<lparr>heap = [(widget ''a'' [])\<lparr>uOwnerReferences := [app1Owner\<lparr>refUID := ''uid-0''\<rparr>]\<rparr>,
                 widget ''b'' []], trace = []\<rparr>
      = Inr (None, \<lparr>heap = [(widget ''a'' [])\<lparr>uOwnerReferences := [app1Owner]\<rparr>,
                            (widget ''b'' [])\<lparr>uOwnerReferences := [app1Owner]\<rparr>],
                    trace = [CallUpdate ((widget ''a'' [])\<lparr>uOwnerReferences := [app1Owner]\<rparr>),
                             CallUpdate ((widget ''b'' [])\<lparr>uOwnerReferences := [app1Owner]\<rparr>)]\<rparr>)"
proof -
  let ?stale = "app1Owner\<lparr>refUID := ''uid-0''\<rparr>"
  let ?obj = "(widget ''a'' [])\<lparr>uOwnerReferences := [?stale]\<rparr>"
  let ?st = "\<lparr>heap = [?obj], trace = []\<rparr>"
  let ?st2 = "\<lparr>heap = [?obj, widget ''b'' []], trace = []\<rparr>"
  let ?ctx = "(''default'', ''app1'')"
  have same: "sameOwner app1Owner ?stale"
    by (simp add: sameOwner_def)
  have uid: "refUID app1Owner \<noteq> refUID ?stale"
    by (simp add: app1Owner_def NewControllerRef_def app1_def)
  have hyp1: "distinct [?stale] \<and> length (filter (sameOwner app1Owner) [?stale]) \<le> 1"
    by simp
  have hyp2: "load (heap ?st) 0 = Some ?obj"
    by (simp add: load_def)
  have hyp3: "distinct [0, 1::nat] \<and> (\<forall>q \<in> set [0, 1::nat]. q < length (heap ?st2))"
    by simp
  note inst = setOwnerRefForResources_claims_owner_once
    [where ownerRef = app1Owner and ownerRefs = "[?stale]" and st = ?st and p = 0 and obj = ?obj
       and r = "cluster app1 []" and logger = ?ctx]
  note inst2 = setOwnerRefForResources_claims_owner_once
    [where ownerRef = app1Owner and st = ?st2 and ps = "[0, 1]"
       and r = "cluster app1 []" and logger = ?ctx]
  have c: "claimedOwnerRefs app1Owner [?stale] = [app1Owner]"
    using inst same uid by simp
  have c0: "claimedOwnerRefs app1Owner [] = [app1Owner]"
    by (simp add: claimedOwnerRefs_eq)
  have upd: "Client_Update (cluster app1 []) x = Inr x" for x
    by (simp add: cluster_def)
  have two: "setOwnerRefForResources (cluster app1 []) [(loggerCtxKey, ?ctx)] app1Owner [0, 1] ?st2
      = Inr (None,
             \<lparr>heap = map (\<lambda>q. if q \<in> set [0, 1] then afterClaim (cluster app1 []) app1Owner (heap ?st2 ! q)
                                 else heap ?st2 ! q) [0..<length (heap ?st2)],
              trace = trace ?st2
                  @ concat (map (\<lambda>q. claimEvents (cluster app1 []) ?ctx app1Owner (heap ?st2 ! q)) [0, 1])\<rparr>)"
    using inst2 hyp3 by blast
  have ev: "map (\<lambda>q. if q \<in> set [0, 1] then afterClaim (cluster app1 []) app1Owner (heap ?st2 ! q)
                                 else heap ?st2 ! q) [0..<length (heap ?st2)]
      = [(widget ''a'' [])\<lparr>uOwnerReferences := [app1Owner]\<rparr>,
         (widget ''b'' [])\<lparr>uOwnerReferences := [app1Owner]\<rparr>]"
    by (simp add: afterClaim_def claimedObject_def upd c c0 widget_def upt_rec)
  have tr: "concat (map (\<lambda>q. claimEvents (cluster app1 []) ?ctx app1Owner (heap ?st2 ! q)) [0, 1])
      = [CallUpdate ((widget ''a'' [])\<lparr>uOwnerReferences := [app1Owner]\<rparr>),
         CallUpdate ((widget ''b'' [])\<lparr>uOwnerReferences := [app1Owner]\<rparr>)]"
    by (simp add: claimEvents_def claimedObject_def upd c c0 widget_def Let_def)
  have single: "setOwnerRefForResources (cluster app1 []) [(loggerCtxKey, ?ctx)] app1Owner [0] ?st
      = Inr (None, \<lparr>heap = [(widget ''a'' [])\<lparr>uOwnerReferences := [app1Owner]\<rparr>],
                    trace = [CallUpdate ((widget ''a'' [])\<lparr>uOwnerReferences := [app1Owner]\<rparr>)]\<rparr>)"
    using inst hyp2 c upd by (simp add: Let_def)
  show ?thesis
    using inst hyp1 c single two unfolding ev tr by simp
qed

text \<open>
  The claim as the spec states it, "no duplicate owner entries" for every resource, fails
  on a resource that carries two references to earlier Applications of the owner's name,
  under two UIDs: the loop overwrites both, and the object sent to the server holds the
  owner reference twice.
\<close>

theorem setOwnerRefForResources_duplicates_counterexample:
  "distinct [app1Owner\<lparr>refUID := ''uid-0''\<rparr>, app1Owner\<lparr>refUID := ''uid-00''\<rparr>]
   \<and> claimedOwnerRefs app1Owner
        (claimedOwnerRefs app1Owner [app1Owner\<lparr>refUID := ''uid-0''\<rparr>, app1Owner\<lparr>refUID := ''uid-00''\<rparr>])
      = [app1Owner, app1Owner]
   \<and> \<not> distinct (claimedOwnerRefs app1Owner
        (claimedOwnerRefs app1Owner [app1Owner\<lparr>refUID := ''uid-0''\<rparr>, app1Owner\<lparr>refUID := ''uid-00''\<rparr>]))
   \<and> setOwnerRefForResources (cluster app1 []) [(loggerCtxKey, (''default'', ''app1''))] app1Owner [0]
        \<lparr>heap = [(widget ''a'' [])\<lparr>uOwnerReferences :=
                    [app1Owner\<lparr>refUID := ''uid-0''\<rparr>, app1Owner\<lparr>refUID := ''uid-00''\<rparr>]\<rparr>],
         trace = []\<rparr>
      = Inr (None, \<lparr>heap = [(widget ''a'' [])\<lparr>uOwnerReferences := [app1Owner, app1Owner]\<rparr>],
                    trace = [CallUpdate ((widget ''a'' [])\<lparr>uOwnerReferences := [app1Owner, app1Owner]\<rparr>)]\<rparr>)"
proof -
  let ?s1 = "app1Owner\<lparr>refUID := ''uid-0''\<rparr>"
  let ?s2 = "app1Owner\<lparr>refUID := ''uid-00''\<rparr>"
  have u: "refUID app1Owner = ''uid-1''"
    by (simp add: app1Owner_def NewControllerRef_def app1_def)
  have c: "claimedOwnerRefs app1Owner [?s1, ?s2] = [app1Owner, app1Owner]"
    by (simp add: claimedOwnerRefs_eq overwritten_def sameOwner_def u)
  have c2: "claimedOwnerRefs app1Owner [app1Owner, app1Owner] = [app1Owner, app1Owner]"
    by (simp add: claimedOwnerRefs_eq overwritten_def sameOwner_def)
  have d: "distinct [?s1, ?s2]"
  proof -
    have "refUID ?s1 \<noteq> refUID ?s2" by simp
    then have "?s1 \<noteq> ?s2" by metis
    then show ?thesis by simp
  qed
  have upd: "Client_Update (cluster app1 []) x = Inr x" for x
    by (simp add: cluster_def)
  have f: "setOwnerRefForResources (cluster app1 []) [(loggerCtxKey, (''default'', ''app1''))] app1Owner [0]
        \<lparr>heap = [(widget ''a'' [])\<lparr>uOwnerReferences := [?s1, ?s2]\<rparr>], trace = []\<rparr>
      = Inr (None, \<lparr>heap = [(widget ''a'' [])\<lparr>uOwnerReferences := [app1Owner, app1Owner]\<rparr>],
                    trace = [CallUpdate ((widget ''a'' [])\<lparr>uOwnerReferences := [app1Owner, app1Owner]\<rparr>)]\<rparr>)"
    by (simp add: setOwnerRefForResources_def getLoggerOrDie_def load_def emit_def Let_def c upd)
  show ?thesis
    using d f by (simp add: c c2)
qed

section \<open>What a pass writes\<close>

lemma applicationWrites_append:
  "applicationWrites (es @ es') = applicationWrites es @ applicationWrites es'"
  by (induction es rule: applicationWrites.induct) simp_all

lemma applicationWrites_emit:
  "applicationWrites (trace (emit e st)) = applicationWrites (trace st) @ applicationWrites [e]"
  by (simp add: emit_def applicationWrites_append)

lemma heap_emit: "heap (emit e st) = heap st"
  by (simp add: emit_def)

lemma fetchLoop_writes:
  "fetchLoop r logger groupKinds selector namespace resources st = Inr (x, st')
   \<Longrightarrow> applicationWrites (trace st') = applicationWrites (trace st)"
proof (induction groupKinds arbitrary: resources st)
  case Nil
  then show ?case by auto
next
  case (Cons gk groupKinds)
  show ?case
  proof (cases "Mapper_RESTMapping r gk")
    case (Inl err)
    with Cons.prems have "fetchLoop r logger groupKinds selector namespace resources
            (emit (Log logger (NoMappingForGK gk)) (emit (CallRESTMapping gk) st)) = Inr (x, st')"
      by simp
    from Cons.IH [OF this] show ?thesis
      by (simp add: applicationWrites_emit)
  next
    case (Inr mapping)
    show ?thesis
    proof (cases selector)
      case None
      with Inr Cons.prems show ?thesis by simp
    next
      case (Some sel)
      let ?st1 = "emit (CallList mapping namespace (MatchLabels sel)) (emit (CallRESTMapping gk) st)"
      have w1: "applicationWrites (trace ?st1) = applicationWrites (trace st)"
        by (simp add: applicationWrites_emit)
      show ?thesis
      proof (cases "Client_List r mapping namespace (MatchLabels sel)")
        case (Inl err)
        with Inr Some Cons.prems have "st' = ?st1" by (simp add: Let_def)
        with w1 show ?thesis by simp
      next
        case items: (Inr items)
        obtain resources' h' where ri: "rangeItems (length (heap ?st1)) items resources
              (heap ?st1 @ [zeroUnstructured]) = (resources', h')"
          by (cases "rangeItems (length (heap ?st1)) items resources (heap ?st1 @ [zeroUnstructured])")
        with Inr Some items Cons.prems
        have "fetchLoop r logger groupKinds selector namespace resources' (?st1\<lparr>heap := h'\<rparr>) = Inr (x, st')"
          by (simp add: Let_def)
        from Cons.IH [OF this] w1 show ?thesis by simp
      qed
    qed
  qed
qed

lemma setOwnerRefLoop_writes:
  "setOwnerRefLoop r logger ownerRef resources st = Inr st'
   \<Longrightarrow> applicationWrites (trace st') = applicationWrites (trace st)"
proof (induction resources arbitrary: st)
  case Nil
  then show ?case by simp
next
  case (Cons p resources)
  from Cons.prems obtain obj where obj: "load (heap st) p = Some obj"
    by (cases "load (heap st) p") simp_all
  let ?obj' = "obj\<lparr>uOwnerReferences := claimedOwnerRefs ownerRef (uOwnerReferences obj)\<rparr>"
  let ?st1 = "emit (CallUpdate ?obj') (st\<lparr>heap := (heap st)[p := ?obj']\<rparr>)"
  have w1: "applicationWrites (trace ?st1) = applicationWrites (trace st)"
    by (simp add: applicationWrites_emit)
  show ?case
  proof (cases "Client_Update r ?obj'")
    case (Inl err)
    with obj Cons.prems have "setOwnerRefLoop r logger ownerRef resources
        (emit (Log logger (ErrorSettingOwnerRef err (uGVK ?obj') (uNamespace ?obj') (uName ?obj'))) ?st1) = Inr st'"
      by (simp add: Let_def)
    from Cons.IH [OF this] w1 show ?thesis by (simp add: applicationWrites_emit)
  next
    case (Inr stored)
    with obj Cons.prems have "setOwnerRefLoop r logger ownerRef resources
        (?st1\<lparr>heap := (heap ?st1)[p := stored]\<rparr>) = Inr st'"
      by (simp add: Let_def)
    from Cons.IH [OF this] w1 show ?thesis by simp
  qed
qed

lemma objectStatusesLoop_writes:
  "objectStatusesLoop pkg logger resources acc st = Inr (objs, st')
   \<Longrightarrow> applicationWrites (trace st') = applicationWrites (trace st)"
proof (induction resources arbitrary: acc st)
  case Nil
  then show ?case by simp
next
  case (Cons p resources)
  from Cons.prems obtain obj where obj: "load (heap st) p = Some obj"
    by (cases "load (heap st) p") simp_all
  show ?case
  proof (cases "status pkg obj")
    case (Inl err)
    with obj Cons.prems have "objectStatusesLoop pkg logger resources acc
        (emit (Log logger (UnableToComputeStatus err (uGVK obj) (uNamespace obj) (uName obj))) st) = Inr (objs, st')"
      by (simp add: Let_def)
    from Cons.IH [OF this] show ?thesis by (simp add: applicationWrites_emit)
  next
    case (Inr s)
    with obj Cons.prems obtain acc' where "objectStatusesLoop pkg logger resources acc' st = Inr (objs, st')"
      by (simp add: Let_def)
    from Cons.IH [OF this] show ?thesis .
  qed
qed

section \<open>The reconcile driver\<close>

lemma Reconcile_Inr:
  "Client_Get r req = Inr app \<Longrightarrow> DeletionTimestamp app = None \<Longrightarrow>
   Reconcile r pkg req = reconcileApplication r pkg [(loggerCtxKey, req)] app
       \<lparr>heap = [], trace = [CallGet req]\<rparr>"
  by (simp add: Reconcile_def emit_def Let_def)

text \<open>
  C4. If fetching the Application returns NotFound, Reconcile returns terminal success (no
  requeue, no error); if the fetch fails with any other error it returns a retry (requeue
  with the error); if the fetched Application has a deletion timestamp, Reconcile returns
  terminal success. In all three cases the pass made one call, the fetch: no discovery,
  no ownership claim, no evaluation and no write.
\<close>

theorem Reconcile_fetch_and_deletion:
  "(Client_Get r req = Inl err \<and> IsNotFound err \<longrightarrow>
      Reconcile r pkg req = Inr ((\<lparr>Requeue = False\<rparr>, None), \<lparr>heap = [], trace = [CallGet req]\<rparr>))
   \<and> (Client_Get r req = Inl err \<and> \<not> IsNotFound err \<longrightarrow>
      Reconcile r pkg req = Inr ((\<lparr>Requeue = True\<rparr>, Some err), \<lparr>heap = [], trace = [CallGet req]\<rparr>))
   \<and> (Client_Get r req = Inr app \<and> DeletionTimestamp app \<noteq> None \<longrightarrow>
      Reconcile r pkg req = Inr ((\<lparr>Requeue = False\<rparr>, None), \<lparr>heap = [], trace = [CallGet req]\<rparr>))"
  by (simp add: Reconcile_def emit_def Let_def)

text \<open>
  A request for an Application the cluster does not hold, a cluster whose fetch times out,
  and \<open>app1\<close> with a deletion timestamp and a Widget that would match.
\<close>

theorem Reconcile_fetch_and_deletion_witness:
  "Reconcile (cluster app1 []) scenario (''default'', ''gone'')
     = Inr ((\<lparr>Requeue = False\<rparr>, None), \<lparr>heap = [], trace = [CallGet (''default'', ''gone'')]\<rparr>)
   \<and> Reconcile ((cluster app1 [])\<lparr>Client_Get := \<lambda>req. Inl (ServerError ''timeout'')\<rparr>) scenario
        (''default'', ''app1'')
     = Inr ((\<lparr>Requeue = True\<rparr>, Some (ServerError ''timeout'')),
            \<lparr>heap = [], trace = [CallGet (''default'', ''app1'')]\<rparr>)
   \<and> Reconcile (cluster (app1\<lparr>DeletionTimestamp := Some ''2020-06-01T00:00:00Z''\<rparr>)
                   [widget ''a'' [(''Ready'', ''True'')]]) scenario (''default'', ''app1'')
     = Inr ((\<lparr>Requeue = False\<rparr>, None), \<lparr>heap = [], trace = [CallGet (''default'', ''app1'')]\<rparr>)"
proof -
  have g1: "Client_Get (cluster app1 []) (''default'', ''gone'') = Inl (NotFound ''applications'')
            \<and> IsNotFound (NotFound ''applications'')"
    by (simp add: cluster_def app1_def)
  have g2: "Client_Get ((cluster app1 [])\<lparr>Client_Get := \<lambda>req. Inl (ServerError ''timeout'')\<rparr>)
              (''default'', ''app1'') = Inl (ServerError ''timeout'')
            \<and> \<not> IsNotFound (ServerError ''timeout'')"
    by simp
  have g3: "Client_Get (cluster (app1\<lparr>DeletionTimestamp := Some ''2020-06-01T00:00:00Z''\<rparr>)
                   [widget ''a'' [(''Ready'', ''True'')]]) (''default'', ''app1'')
              = Inr (app1\<lparr>DeletionTimestamp := Some ''2020-06-01T00:00:00Z''\<rparr>)
            \<and> DeletionTimestamp (app1\<lparr>DeletionTimestamp := Some ''2020-06-01T00:00:00Z''\<rparr>) \<noteq> None"
    by (simp add: cluster_def app1_def)
  show ?thesis
    using g1 g2 g3
      Reconcile_fetch_and_deletion [of "cluster app1 []" "(''default'', ''gone'')"
        "NotFound ''applications''" scenario]
      Reconcile_fetch_and_deletion [of
        "(cluster app1 [])\<lparr>Client_Get := \<lambda>req. Inl (ServerError ''timeout'')\<rparr>"
        "(''default'', ''app1'')" "ServerError ''timeout''" scenario]
      Reconcile_fetch_and_deletion [of
        "cluster (app1\<lparr>DeletionTimestamp := Some ''2020-06-01T00:00:00Z''\<rparr>)
                   [widget ''a'' [(''Ready'', ''True'')]]"
        "(''default'', ''app1'')" _ scenario "app1\<lparr>DeletionTimestamp := Some ''2020-06-01T00:00:00Z''\<rparr>"]
    by simp
qed

lemma writeStatus_writes:
  "writeStatus r app new st = (x, st') \<Longrightarrow>
   applicationWrites (trace st') = applicationWrites (trace st) @ [app\<lparr>Status := new\<rparr>]"
  by (auto simp add: writeStatus_def Let_def applicationWrites_emit split: sum.splits)

lemma reconcileApplication_writes:
  assumes "reconcileApplication r pkg ctx app st = Inr (x, st')"
    and "a \<in> set (applicationWrites (trace st'))"
    and "applicationWrites (trace st) = []"
  shows "\<exists>objs. a = app\<lparr>Status := newApplicationStatus pkg app objs\<rparr>"
proof -
  obtain logger where lg: "getLoggerOrDie ctx = Inr logger"
    using assms(1)
    by (cases "getLoggerOrDie ctx")
       (simp_all add: reconcileApplication_def fetchComponentListResources_def)
  from assms(1) lg obtain resources e st1 where
    f: "fetchLoop r logger (ComponentGroupKinds (Spec app)) (Selector (Spec app)) (appNamespace app) [] st
          = Inr ((resources, e), st1)"
    by (cases "fetchLoop r logger (ComponentGroupKinds (Spec app)) (Selector (Spec app)) (appNamespace app) [] st")
       (auto simp add: reconcileApplication_def fetchComponentListResources_def)
  have w1: "applicationWrites (trace st1) = []"
    using fetchLoop_writes [OF f] assms(3) by simp
  show ?thesis
  proof (cases e)
    case (Some err)
    with assms(1) lg f have "st' = st1"
      by (simp add: reconcileApplication_def fetchComponentListResources_def)
    with w1 assms(2) show ?thesis by simp
  next
    case None
    from assms(1) lg f None obtain e2 st2 where
      c: "claimOwnership r pkg ctx app resources st1 = Inr (e2, st2)"
      by (cases "claimOwnership r pkg ctx app resources st1")
         (auto simp add: reconcileApplication_def fetchComponentListResources_def)
    have e2: "e2 = None" and w2: "applicationWrites (trace st2) = []"
      using c lg w1 setOwnerRefLoop_writes
      by (auto simp add: claimOwnership_def setOwnerRefForResources_def split: if_splits sum.splits)
    from assms(1) lg f None c e2 obtain objs st3 where
      o: "objectStatusesLoop pkg logger resources [] st2 = Inr (objs, st3)"
      and w: "writeStatus r app (newApplicationStatus pkg app objs) st3 = (x, st')"
      by (cases "objectStatusesLoop pkg logger resources [] st2")
         (auto simp add: reconcileApplication_def fetchComponentListResources_def objectStatuses_def)
    have "applicationWrites (trace st3) = []"
      using objectStatusesLoop_writes [OF o] w2 by simp
    with writeStatus_writes [OF w] assms(2) show ?thesis by auto
  qed
qed

lemma Reconcile_writes:
  assumes "Reconcile r pkg req = Inr (x, st)" and "a \<in> set (applicationWrites (trace st))"
  shows "\<exists>app objs. Client_Get r req = Inr app \<and> a = app\<lparr>Status := newApplicationStatus pkg app objs\<rparr>"
proof (cases "Client_Get r req")
  case (Inl err)
  with assms show ?thesis
    by (auto simp add: Reconcile_def emit_def Let_def split: if_splits)
next
  case (Inr app)
  show ?thesis
  proof (cases "DeletionTimestamp app = None")
    case False
    with Inr assms show ?thesis
      by (auto simp add: Reconcile_def emit_def Let_def)
  next
    case True
    with Inr assms have "reconcileApplication r pkg [(loggerCtxKey, req)] app
       \<lparr>heap = [], trace = [CallGet req]\<rparr> = Inr (x, st)"
      by (simp add: Reconcile_Inr)
    from reconcileApplication_writes [OF this assms(2)] Inr show ?thesis by simp
  qed
qed

lemma newApplicationStatus_Condition:
  "Condition (newApplicationStatus pkg app objs) =
     Some (if aggregateReady (StatusReady pkg) objs
           then \<lparr>condReady = True, condReason = ''ComponentsReady'', condMessage = ''all components ready''\<rparr>
           else \<lparr>condReady = False, condReason = ''ComponentsNotReady'', condMessage = ''some components not ready''\<rparr>)"
  by (simp add: newApplicationStatus_def setReadyCondition_def setNotReadyCondition_def Let_def)

lemma newApplicationStatus_ComponentList:
  "ComponentList (newApplicationStatus pkg app objs) = objs"
  by (simp add: newApplicationStatus_def setReadyCondition_def setNotReadyCondition_def Let_def)

lemmas scenario_defs = cluster_def app1_def scenario_def widget_def widgetGK_def widgetGVK_def
  readyCondition_def

lemmas run_defs = Reconcile_def reconcileApplication_def fetchComponentListResources_def
  claimOwnership_def setOwnerRefForResources_def objectStatuses_def writeStatus_def
  newApplicationStatus_def setReadyCondition_def setNotReadyCondition_def
  getLoggerOrDie_def loggerCtxKey_def emit_def load_def Let_def

text \<open>The pass over \<open>app1\<close> and one Widget that reports Ready.\<close>

lemma Reconcile_app1_one_ready:
  "Reconcile (cluster app1 [widget ''a'' [(''Ready'', ''True'')]]) scenario (''default'', ''app1'')
   = Inr ((\<lparr>Requeue = False\<rparr>, None),
          \<lparr>heap = [widget ''a'' [(''Ready'', ''True'')]],
           trace = [CallGet (''default'', ''app1''), CallRESTMapping widgetGK,
                    CallList widgetGVK ''default'' [(''app'', ''app1'')],
                    CallUpdateApplication (app1\<lparr>Status :=
                      \<lparr>ObservedGeneration = 1,
                       ComponentList = [\<lparr>osGroup = ''example.com'', osKind = ''Widget'', osName = ''a'',
                                         osLink = [], osStatus = ''Ready''\<rparr>],
                       Condition = Some \<lparr>condReady = True, condReason = ''ComponentsReady'',
                                          condMessage = ''all components ready''\<rparr>\<rparr>\<rparr>)]\<rparr>)"
  by (simp add: run_defs scenario_defs)

section \<open>Failures of the ownership step\<close>

lemma setOwnerRefForResources_nil:
  "setOwnerRefForResources r ctx ownerRef resources st \<noteq> Inr (Some err, st')"
  by (auto simp add: setOwnerRefForResources_def split: sum.splits)

lemma claimOwnership_nil:
  "claimOwnership r pkg ctx app resources st \<noteq> Inr (Some err, st')"
  by (simp add: claimOwnership_def setOwnerRefForResources_nil)

lemma setOwnerRefLoop_returns:
  "\<forall>p \<in> set resources. p < length (heap st) \<Longrightarrow>
   \<exists>st'. setOwnerRefLoop r logger ownerRef resources st = Inr st' \<and> length (heap st') = length (heap st)"
proof (induction resources arbitrary: st)
  case Nil
  then show ?case by simp
next
  case (Cons p resources)
  then have p: "load (heap st) p = Some (heap st ! p)"
    by (simp add: load_def)
  let ?obj = "heap st ! p"
  let ?obj' = "?obj\<lparr>uOwnerReferences := claimedOwnerRefs ownerRef (uOwnerReferences ?obj)\<rparr>"
  let ?st1 = "emit (CallUpdate ?obj') (st\<lparr>heap := (heap st)[p := ?obj']\<rparr>)"
  show ?case
  proof (cases "Client_Update r ?obj'")
    case (Inl err)
    let ?st2 = "emit (Log logger (ErrorSettingOwnerRef err (uGVK ?obj') (uNamespace ?obj') (uName ?obj'))) ?st1"
    have "\<forall>q \<in> set resources. q < length (heap ?st2)"
      using Cons.prems by (simp add: heap_emit)
    from Cons.IH [OF this] p Inl show ?thesis
      by (simp add: Let_def heap_emit)
  next
    case (Inr stored)
    let ?st2 = "?st1\<lparr>heap := (heap ?st1)[p := stored]\<rparr>"
    have "\<forall>q \<in> set resources. q < length (heap ?st2)"
      using Cons.prems by (simp add: heap_emit)
    from Cons.IH [OF this] p Inr show ?thesis
      by (simp add: Let_def heap_emit)
  qed
qed


lemma fetchLoop_error:
  "fetchLoop r logger groupKinds selector namespace resources st = Inr ((resources', Some err), st')
   \<Longrightarrow> \<exists>mapping labels. Client_List r mapping namespace labels = Inl err"
proof (induction groupKinds arbitrary: resources st)
  case Nil
  then show ?case by simp
next
  case (Cons gk groupKinds)
  show ?case
  proof (cases "Mapper_RESTMapping r gk")
    case (Inl e)
    with Cons show ?thesis by simp
  next
    case (Inr mapping)
    show ?thesis
    proof (cases selector)
      case None
      with Inr Cons.prems show ?thesis by simp
    next
      case (Some sel)
      show ?thesis
      proof (cases "Client_List r mapping namespace (MatchLabels sel)")
        case (Inl e)
        with Inr Some Cons.prems have "e = err" by (simp add: Let_def)
        with Inl show ?thesis by blast
      next
        case items: (Inr items)
        with Inr Some Cons.prems Cons.IH show ?thesis
          by (auto simp add: Let_def split: prod.splits)
      qed
    qed
  qed
qed


lemma writeStatus_error:
  assumes "writeStatus r app new st = ((res, e), st')"
  shows "(Requeue res \<longleftrightarrow> e \<noteq> None)
     \<and> (\<forall>err. e = Some err \<longrightarrow> Client_UpdateApplication r (app\<lparr>Status := new\<rparr>) = Inl err)"
proof (cases "Client_UpdateApplication r (app\<lparr>Status := new\<rparr>)")
  case (Inl err)
  with assms have "res = \<lparr>Requeue = True\<rparr>" "e = Some err"
    by (simp_all add: writeStatus_def Let_def)
  with Inl show ?thesis by simp
next
  case (Inr stored)
  with assms have "res = \<lparr>Requeue = False\<rparr>" "e = None"
    by (simp_all add: writeStatus_def Let_def)
  then show ?thesis by simp
qed


lemma reconcileApplication_cases:
  assumes "reconcileApplication r pkg ctx app st = Inr (x, st')"
  obtains (listError) logger resources err where
      "getLoggerOrDie ctx = Inr logger"
      "fetchLoop r logger (ComponentGroupKinds (Spec app)) (Selector (Spec app)) (appNamespace app) [] st
         = Inr ((resources, Some err), st')"
      "x = (\<lparr>Requeue = True\<rparr>, Some err)"
  | (written) logger resources st1 st2 objs st3 where
      "getLoggerOrDie ctx = Inr logger"
      "fetchLoop r logger (ComponentGroupKinds (Spec app)) (Selector (Spec app)) (appNamespace app) [] st
         = Inr ((resources, None), st1)"
      "claimOwnership r pkg ctx app resources st1 = Inr (None, st2)"
      "objectStatusesLoop pkg logger resources [] st2 = Inr (objs, st3)"
      "writeStatus r app (newApplicationStatus pkg app objs) st3 = (x, st')"
proof -
  let ?fetch = "fetchComponentListResources r ctx (ComponentGroupKinds (Spec app))
      (Selector (Spec app)) (appNamespace app) st"
  obtain logger where lg: "getLoggerOrDie ctx = Inr logger"
    using assms
    by (cases "getLoggerOrDie ctx")
       (simp_all add: reconcileApplication_def fetchComponentListResources_def)
  have fl: "?fetch = fetchLoop r logger (ComponentGroupKinds (Spec app)) (Selector (Spec app))
      (appNamespace app) [] st"
    using lg by (simp add: fetchComponentListResources_def)
  obtain resources e st1 where f: "?fetch = Inr ((resources, e), st1)"
    using assms by (cases ?fetch) (auto simp add: reconcileApplication_def)
  show thesis
  proof (cases e)
    case (Some err)
    with assms f have "x = (\<lparr>Requeue = True\<rparr>, Some err)" "st' = st1"
      by (simp_all add: reconcileApplication_def)
    with lg f fl Some show thesis by (intro listError [of logger resources err]) simp_all
  next
    case None
    let ?claim = "claimOwnership r pkg ctx app resources st1"
    have r1: "(case ?claim of Inl p \<Rightarrow> Inl p
           | Inr (Some err, st2) \<Rightarrow> Inr ((\<lparr>Requeue = True\<rparr>, Some err), st2)
           | Inr (None, st2) \<Rightarrow>
               (case objectStatuses pkg ctx resources st2 of
                  Inl p \<Rightarrow> Inl p
                | Inr (objStatuses, st3) \<Rightarrow>
                    Inr (writeStatus r app (newApplicationStatus pkg app objStatuses) st3))) = Inr (x, st')"
      using assms f None by (simp add: reconcileApplication_def)
    obtain e2 st2 where c: "?claim = Inr (e2, st2)"
      using r1 by (cases ?claim) auto
    have e2: "e2 = None"
      using c claimOwnership_nil [of r pkg ctx app resources st1] by (cases e2) auto
    let ?os = "objectStatuses pkg ctx resources st2"
    have r2: "(case ?os of Inl p \<Rightarrow> Inl p
                | Inr (objStatuses, st3) \<Rightarrow>
                    Inr (writeStatus r app (newApplicationStatus pkg app objStatuses) st3)) = Inr (x, st')"
      using r1 c e2 by simp
    obtain objs st3 where o: "?os = Inr (objs, st3)"
      using r2 by (cases ?os) auto
    have w: "writeStatus r app (newApplicationStatus pkg app objs) st3 = (x, st')"
      using r2 o by simp
    have ol: "objectStatusesLoop pkg logger resources [] st2 = Inr (objs, st3)"
      using o lg by (simp add: objectStatuses_def)
    show thesis
      using lg f fl None c e2 ol w by (intro written [of logger resources st1 st2 objs st3]) simp_all
  qed
qed


lemma reconcileApplication_error:
  assumes "reconcileApplication r pkg ctx app st = Inr ((res, e), st')"
  shows "(Requeue res \<longleftrightarrow> e \<noteq> None)
     \<and> (\<forall>err. e = Some err \<longrightarrow>
           (\<exists>mapping namespace labels. Client_List r mapping namespace labels = Inl err)
           \<or> (\<exists>a. Client_UpdateApplication r a = Inl err))"
  using assms
proof (cases rule: reconcileApplication_cases)
  case (listError logger resources err)
  from fetchLoop_error [OF listError(2)] listError(3) show ?thesis by auto
next
  case (written logger resources st1 st2 objs st3)
  from writeStatus_error [OF written(5)] show ?thesis by blast
qed

lemma Reconcile_error:
  assumes "Reconcile r pkg req = Inr ((res, e), st)"
  shows "(Requeue res \<longleftrightarrow> e \<noteq> None)
     \<and> (\<forall>err. e = Some err \<longrightarrow>
           Client_Get r req = Inl err
           \<or> (\<exists>mapping namespace labels. Client_List r mapping namespace labels = Inl err)
           \<or> (\<exists>a. Client_UpdateApplication r a = Inl err))"
proof (cases "Client_Get r req")
  case (Inl err)
  show ?thesis
  proof (cases "IsNotFound err")
    case True
    with Inl assms have "res = \<lparr>Requeue = False\<rparr>" "e = None"
      by (simp_all add: Reconcile_def Let_def)
    then show ?thesis by simp
  next
    case False
    with Inl assms have "res = \<lparr>Requeue = True\<rparr>" "e = Some err"
      by (simp_all add: Reconcile_def Let_def)
    with Inl show ?thesis by simp
  qed
next
  case (Inr app)
  show ?thesis
  proof (cases "DeletionTimestamp app = None")
    case False
    with Inr assms have "res = \<lparr>Requeue = False\<rparr>" "e = None"
      by (simp_all add: Reconcile_def Let_def)
    then show ?thesis by simp
  next
    case True
    with Inr assms have "reconcileApplication r pkg [(loggerCtxKey, req)] app
       \<lparr>heap = [], trace = [CallGet req]\<rparr> = Inr ((res, e), st)"
      by (simp add: Reconcile_Inr)
    from reconcileApplication_error [OF this] show ?thesis by blast
  qed
qed

text \<open>
  C10. For every owner reference and every list of resources, setOwnerRefForResources
  returns nil: it never returns an error, and with a logger in the context and resources
  that are objects it returns. So the retry branch of Reconcile behind the ownership step
  is never taken: a pass is requeued exactly when it returns an error, and that error is
  the error of the fetch, of a list or of the write of the Application, never one of an
  ownership claim.
\<close>

theorem setOwnerRefForResources_returns_nil:
  "setOwnerRefForResources r ctx ownerRef resources st \<noteq> Inr (Some err, st')
   \<and> (getLoggerOrDie ctx = Inr logger \<and> (\<forall>p \<in> set resources. p < length (heap st)) \<longrightarrow>
        (\<exists>st''. setOwnerRefForResources r ctx ownerRef resources st = Inr (None, st'')))
   \<and> claimOwnership r pkg ctx app resources st \<noteq> Inr (Some err, st')
   \<and> (Reconcile r pkg req = Inr ((res, e), st2) \<longrightarrow>
        (Requeue res \<longleftrightarrow> e \<noteq> None)
        \<and> (\<forall>err. e = Some err \<longrightarrow>
              Client_Get r req = Inl err
              \<or> (\<exists>mapping namespace labels. Client_List r mapping namespace labels = Inl err)
              \<or> (\<exists>a. Client_UpdateApplication r a = Inl err)))"
proof (intro conjI impI)
  show "setOwnerRefForResources r ctx ownerRef resources st \<noteq> Inr (Some err, st')"
    by (rule setOwnerRefForResources_nil)
  show "claimOwnership r pkg ctx app resources st \<noteq> Inr (Some err, st')"
    by (rule claimOwnership_nil)
  show "\<exists>st''. setOwnerRefForResources r ctx ownerRef resources st = Inr (None, st'')"
    if "getLoggerOrDie ctx = Inr logger \<and> (\<forall>p \<in> set resources. p < length (heap st))"
  proof -
    from that obtain s where "setOwnerRefLoop r logger ownerRef resources st = Inr s"
      using setOwnerRefLoop_returns by blast
    with that show ?thesis by (simp add: setOwnerRefForResources_def)
  qed
  assume a: "Reconcile r pkg req = Inr ((res, e), st2)"
  from Reconcile_error [OF a] show "Requeue res \<longleftrightarrow> e \<noteq> None" by blast
  from Reconcile_error [OF a] show "\<forall>err. e = Some err \<longrightarrow>
              Client_Get r req = Inl err
              \<or> (\<exists>mapping namespace labels. Client_List r mapping namespace labels = Inl err)
              \<or> (\<exists>a. Client_UpdateApplication r a = Inl err)" by blast
qed

text \<open>
  A cluster that rejects every update of a Widget: the failure of the claim is logged and
  the pass ends without a requeue.
\<close>

lemma Reconcile_owningApp1_conflict:
  "Reconcile ((cluster owningApp1 [widget ''a'' [(''Ready'', ''True'')]])
                \<lparr>Client_Update := \<lambda>obj. Inl (ServerError ''conflict'')\<rparr>) scenario (''default'', ''app1'')
   = Inr ((\<lparr>Requeue = False\<rparr>, None),
          \<lparr>heap = [(widget ''a'' [(''Ready'', ''True'')])\<lparr>uOwnerReferences := [app1Owner]\<rparr>],
           trace = [CallGet (''default'', ''app1''), CallRESTMapping widgetGK,
                    CallList widgetGVK ''default'' [(''app'', ''app1'')],
                    CallUpdate ((widget ''a'' [(''Ready'', ''True'')])\<lparr>uOwnerReferences := [app1Owner]\<rparr>),
                    Log (''default'', ''app1'')
                      (ErrorSettingOwnerRef (ServerError ''conflict'') widgetGVK ''default'' ''a''),
                    CallUpdateApplication (owningApp1\<lparr>Status :=
                      \<lparr>ObservedGeneration = 1,
                       ComponentList = [\<lparr>osGroup = ''example.com'', osKind = ''Widget'', osName = ''a'',
                                         osLink = [], osStatus = ''Ready''\<rparr>],
                       Condition = Some \<lparr>condReady = True, condReason = ''ComponentsReady'',
                                          condMessage = ''all components ready''\<rparr>\<rparr>\<rparr>)]\<rparr>)"
  by (simp add: run_defs scenario_defs owningApp1_def app1Owner_def NewControllerRef_def
        claimedOwnerRefs_eq)

theorem setOwnerRefForResources_returns_nil_witness:
  "(\<exists>st''. setOwnerRefForResources
        ((cluster owningApp1 [])\<lparr>Client_Update := \<lambda>obj. Inl (ServerError ''conflict'')\<rparr>)
        [(loggerCtxKey, (''default'', ''app1''))] app1Owner [0]
        \<lparr>heap = [widget ''a'' [(''Ready'', ''True'')]], trace = []\<rparr> = Inr (None, st''))
   \<and> map_sum id fst (Reconcile ((cluster owningApp1 [widget ''a'' [(''Ready'', ''True'')]])
                \<lparr>Client_Update := \<lambda>obj. Inl (ServerError ''conflict'')\<rparr>) scenario (''default'', ''app1''))
       = Inr (\<lparr>Requeue = False\<rparr>, None)"
proof -
  let ?r = "(cluster owningApp1 [widget ''a'' [(''Ready'', ''True'')]])
                \<lparr>Client_Update := \<lambda>obj. Inl (ServerError ''conflict'')\<rparr>"
  have h1: "getLoggerOrDie [(loggerCtxKey, (''default'', ''app1''))] = Inr (''default'', ''app1'')
      \<and> (\<forall>p \<in> set [0::nat]. p < length (heap \<lparr>heap = [widget ''a'' [(''Ready'', ''True'')]], trace = []\<rparr>))"
    by (simp add: getLoggerOrDie_def)
  show ?thesis
    using h1 Reconcile_owningApp1_conflict
      setOwnerRefForResources_returns_nil [where
        r = "(cluster owningApp1 [])\<lparr>Client_Update := \<lambda>obj. Inl (ServerError ''conflict'')\<rparr>"
        and ctx = "[(loggerCtxKey, (''default'', ''app1''))]" and ownerRef = app1Owner
        and resources = "[0]"
        and st = "\<lparr>heap = [widget ''a'' [(''Ready'', ''True'')]], trace = []\<rparr>"
        and logger = "(''default'', ''app1'')"]
      setOwnerRefForResources_returns_nil [where r = ?r and pkg = scenario
        and req = "(''default'', ''app1'')" and res = "\<lparr>Requeue = False\<rparr>" and e = None]
    by simp
qed

section \<open>The condition a pass stores\<close>

lemma claimOwnership_writes:
  assumes "claimOwnership r pkg ctx app resources st = Inr (e, st')"
  shows "applicationWrites (trace st') = applicationWrites (trace st)"
proof (cases "AddOwnerRef (Spec app)")
  case False
  with assms show ?thesis by (simp add: claimOwnership_def)
next
  case True
  let ?ownerRef = "(NewControllerRef app (GroupVersion pkg) ''Application'')\<lparr>refController := Some False\<rparr>"
  from assms True have s: "setOwnerRefForResources r ctx ?ownerRef resources st = Inr (e, st')"
    by (simp add: claimOwnership_def)
  then obtain logger where lg: "getLoggerOrDie ctx = Inr logger"
    by (cases "getLoggerOrDie ctx") (simp_all add: setOwnerRefForResources_def)
  from s lg have "setOwnerRefLoop r logger ?ownerRef resources st = Inr st'"
    by (cases "setOwnerRefLoop r logger ?ownerRef resources st")
       (simp_all add: setOwnerRefForResources_def)
  then show ?thesis by (rule setOwnerRefLoop_writes)
qed

lemma Reconcile_live_cases:
  assumes "Client_Get r req = Inr app" and "DeletionTimestamp app = None"
    and "Reconcile r pkg req = Inr (x, st)"
  obtains (listError) resources err where
      "fetchComponentListResources r [(loggerCtxKey, req)] (ComponentGroupKinds (Spec app))
         (Selector (Spec app)) (appNamespace app) \<lparr>heap = [], trace = [CallGet req]\<rparr>
         = Inr ((resources, Some err), st)"
      "x = (\<lparr>Requeue = True\<rparr>, Some err)"
      "applicationWrites (trace st) = []"
  | (written) resources st1 st2 objs st3 where
      "fetchComponentListResources r [(loggerCtxKey, req)] (ComponentGroupKinds (Spec app))
         (Selector (Spec app)) (appNamespace app) \<lparr>heap = [], trace = [CallGet req]\<rparr>
         = Inr ((resources, None), st1)"
      "claimOwnership r pkg [(loggerCtxKey, req)] app resources st1 = Inr (None, st2)"
      "objectStatuses pkg [(loggerCtxKey, req)] resources st2 = Inr (objs, st3)"
      "writeStatus r app (newApplicationStatus pkg app objs) st3 = (x, st)"
      "applicationWrites (trace st) = [app\<lparr>Status := newApplicationStatus pkg app objs\<rparr>]"
proof -
  let ?ctx = "[(loggerCtxKey, req)]"
  let ?st0 = "\<lparr>heap = [], trace = [CallGet req]\<rparr>"
  have lg: "getLoggerOrDie ?ctx = Inr req"
    by (simp add: getLoggerOrDie_def)
  have ra: "reconcileApplication r pkg ?ctx app ?st0 = Inr (x, st)"
    using assms by (simp add: Reconcile_Inr)
  then show thesis
  proof (cases rule: reconcileApplication_cases)
    case (listError logger resources err)
    with lg have f: "fetchLoop r req (ComponentGroupKinds (Spec app)) (Selector (Spec app))
        (appNamespace app) [] ?st0 = Inr ((resources, Some err), st)"
      by simp
    have "applicationWrites (trace st) = []"
      using fetchLoop_writes [OF f] by simp
    moreover have "fetchComponentListResources r ?ctx (ComponentGroupKinds (Spec app))
         (Selector (Spec app)) (appNamespace app) ?st0 = Inr ((resources, Some err), st)"
      using f lg by (simp add: fetchComponentListResources_def)
    ultimately show ?thesis
      using listError(3) by (intro that(1) [of resources err]) simp_all
  next
    case (written logger resources st1 st2 objs st3)
    with lg have f: "fetchLoop r req (ComponentGroupKinds (Spec app)) (Selector (Spec app))
        (appNamespace app) [] ?st0 = Inr ((resources, None), st1)"
      and o: "objectStatusesLoop pkg req resources [] st2 = Inr (objs, st3)"
      by simp_all
    have w1: "applicationWrites (trace st1) = []"
      using fetchLoop_writes [OF f] by simp
    have w2: "applicationWrites (trace st2) = []"
      using claimOwnership_writes [OF written(3)] w1 by simp
    have w3: "applicationWrites (trace st3) = []"
      using objectStatusesLoop_writes [OF o] w2 by simp
    have w: "applicationWrites (trace st) = [app\<lparr>Status := newApplicationStatus pkg app objs\<rparr>]"
      using writeStatus_writes [OF written(5)] w3 by simp
    have ff: "fetchComponentListResources r ?ctx (ComponentGroupKinds (Spec app))
         (Selector (Spec app)) (appNamespace app) ?st0 = Inr ((resources, None), st1)"
      using f lg by (simp add: fetchComponentListResources_def)
    have oo: "objectStatuses pkg ?ctx resources st2 = Inr (objs, st3)"
      using o lg by (simp add: objectStatuses_def)
    show ?thesis
      using ff written(3) oo written(5) w by (rule that(2))
  qed
qed

text \<open>The pass over \<open>app1\<close> and one Widget that reports Ready = False.\<close>

lemma Reconcile_app1_one_not_ready:
  "Reconcile (cluster app1 [widget ''a'' [(''Ready'', ''False'')]]) scenario (''default'', ''app1'')
   = Inr ((\<lparr>Requeue = False\<rparr>, None),
          \<lparr>heap = [widget ''a'' [(''Ready'', ''False'')]],
           trace = [CallGet (''default'', ''app1''), CallRESTMapping widgetGK,
                    CallList widgetGVK ''default'' [(''app'', ''app1'')],
                    CallUpdateApplication (app1\<lparr>Status :=
                      \<lparr>ObservedGeneration = 1,
                       ComponentList = [\<lparr>osGroup = ''example.com'', osKind = ''Widget'', osName = ''a'',
                                         osLink = [], osStatus = ''InProgress''\<rparr>],
                       Condition = Some \<lparr>condReady = False, condReason = ''ComponentsNotReady'',
                                          condMessage = ''some components not ready''\<rparr>\<rparr>\<rparr>)]\<rparr>)"
  by (simp add: run_defs scenario_defs)

text \<open>
  C8. In every pass that reaches aggregation, the condition of the candidate status is
  Ready with reason "ComponentsReady" when the aggregate verdict is true, and NotReady with
  reason "ComponentsNotReady" when it is false, and the pass stores it: a pass that fetched
  an Application that is not being deleted either ends with the error of a list and writes
  nothing, or discovers the resources, evaluates them and sends exactly one Application to
  the server, the fetched one with the candidate status, whose component list is the
  evaluated entries and whose condition is the verdict over them. Every Application a
  pass writes carries one of the two reasons: no other reason string is ever written.
\<close>

theorem Reconcile_condition_reasons:
  "Condition (newApplicationStatus pkg app objs) =
     Some (if aggregateReady (StatusReady pkg) objs
           then \<lparr>condReady = True, condReason = ''ComponentsReady'', condMessage = ''all components ready''\<rparr>
           else \<lparr>condReady = False, condReason = ''ComponentsNotReady'', condMessage = ''some components not ready''\<rparr>)
   \<and> (Client_Get r req = Inr app \<and> DeletionTimestamp app = None
        \<and> Reconcile r pkg req = Inr (x, st) \<longrightarrow>
        (applicationWrites (trace st) = []
           \<and> (\<exists>resources err.
                 fetchComponentListResources r [(loggerCtxKey, req)] (ComponentGroupKinds (Spec app))
                   (Selector (Spec app)) (appNamespace app) \<lparr>heap = [], trace = [CallGet req]\<rparr>
                   = Inr ((resources, Some err), st)
                 \<and> x = (\<lparr>Requeue = True\<rparr>, Some err)))
        \<or> (\<exists>resources st1 st2 objs' st3.
              fetchComponentListResources r [(loggerCtxKey, req)] (ComponentGroupKinds (Spec app))
                (Selector (Spec app)) (appNamespace app) \<lparr>heap = [], trace = [CallGet req]\<rparr>
                = Inr ((resources, None), st1)
              \<and> claimOwnership r pkg [(loggerCtxKey, req)] app resources st1 = Inr (None, st2)
              \<and> objectStatuses pkg [(loggerCtxKey, req)] resources st2 = Inr (objs', st3)
              \<and> applicationWrites (trace st) = [app\<lparr>Status := newApplicationStatus pkg app objs'\<rparr>]
              \<and> ComponentList (newApplicationStatus pkg app objs') = objs'
              \<and> ObservedGeneration (newApplicationStatus pkg app objs') = Generation app
              \<and> Condition (newApplicationStatus pkg app objs') =
                  Some (if aggregateReady (StatusReady pkg) objs'
                        then \<lparr>condReady = True, condReason = ''ComponentsReady'',
                              condMessage = ''all components ready''\<rparr>
                        else \<lparr>condReady = False, condReason = ''ComponentsNotReady'',
                              condMessage = ''some components not ready''\<rparr>)))
   \<and> (Reconcile r pkg req = Inr (x, st) \<and> a \<in> set (applicationWrites (trace st)) \<longrightarrow>
        (\<exists>c. Condition (Status a) = Some c
           \<and> condReady c = aggregateReady (StatusReady pkg) (ComponentList (Status a))
           \<and> condReason c = (if condReady c then ''ComponentsReady'' else ''ComponentsNotReady'')))"
proof (intro conjI impI)
  show "Condition (newApplicationStatus pkg app objs) =
     Some (if aggregateReady (StatusReady pkg) objs
           then \<lparr>condReady = True, condReason = ''ComponentsReady'', condMessage = ''all components ready''\<rparr>
           else \<lparr>condReady = False, condReason = ''ComponentsNotReady'', condMessage = ''some components not ready''\<rparr>)"
    by (rule newApplicationStatus_Condition)
next
  assume "Reconcile r pkg req = Inr (x, st) \<and> a \<in> set (applicationWrites (trace st))"
  then obtain app' objs' where "a = app'\<lparr>Status := newApplicationStatus pkg app' objs'\<rparr>"
    using Reconcile_writes by blast
  then show "\<exists>c. Condition (Status a) = Some c
           \<and> condReady c = aggregateReady (StatusReady pkg) (ComponentList (Status a))
           \<and> condReason c = (if condReady c then ''ComponentsReady'' else ''ComponentsNotReady'')"
    by (simp add: newApplicationStatus_Condition newApplicationStatus_ComponentList)
next
  assume a: "Client_Get r req = Inr app \<and> DeletionTimestamp app = None
        \<and> Reconcile r pkg req = Inr (x, st)"
  then have g: "Client_Get r req = Inr app" and d: "DeletionTimestamp app = None"
    and rc: "Reconcile r pkg req = Inr (x, st)"
    by simp_all
  from g d rc show "(applicationWrites (trace st) = []
           \<and> (\<exists>resources err.
                 fetchComponentListResources r [(loggerCtxKey, req)] (ComponentGroupKinds (Spec app))
                   (Selector (Spec app)) (appNamespace app) \<lparr>heap = [], trace = [CallGet req]\<rparr>
                   = Inr ((resources, Some err), st)
                 \<and> x = (\<lparr>Requeue = True\<rparr>, Some err)))
        \<or> (\<exists>resources st1 st2 objs' st3.
              fetchComponentListResources r [(loggerCtxKey, req)] (ComponentGroupKinds (Spec app))
                (Selector (Spec app)) (appNamespace app) \<lparr>heap = [], trace = [CallGet req]\<rparr>
                = Inr ((resources, None), st1)
              \<and> claimOwnership r pkg [(loggerCtxKey, req)] app resources st1 = Inr (None, st2)
              \<and> objectStatuses pkg [(loggerCtxKey, req)] resources st2 = Inr (objs', st3)
              \<and> applicationWrites (trace st) = [app\<lparr>Status := newApplicationStatus pkg app objs'\<rparr>]
              \<and> ComponentList (newApplicationStatus pkg app objs') = objs'
              \<and> ObservedGeneration (newApplicationStatus pkg app objs') = Generation app
              \<and> Condition (newApplicationStatus pkg app objs') =
                  Some (if aggregateReady (StatusReady pkg) objs'
                        then \<lparr>condReady = True, condReason = ''ComponentsReady'',
                              condMessage = ''all components ready''\<rparr>
                        else \<lparr>condReady = False, condReason = ''ComponentsNotReady'',
                              condMessage = ''some components not ready''\<rparr>))"
  proof (cases rule: Reconcile_live_cases)
    case (listError resources err)
    then show ?thesis by blast
  next
    case (written resources st1 st2 objs' st3)
    have og: "ObservedGeneration (newApplicationStatus pkg app objs') = Generation app"
      by (simp add: newApplicationStatus_def setReadyCondition_def setNotReadyCondition_def Let_def)
    show ?thesis
      using written(1,2,3,5) og newApplicationStatus_ComponentList [of pkg app objs']
        newApplicationStatus_Condition [of pkg app objs']
      by blast
  qed
qed

text \<open>
  The pass over \<open>app1\<close> and one ready Widget stores Ready with "ComponentsReady"; the pass
  over \<open>app1\<close> and one Widget that is not ready stores NotReady with "ComponentsNotReady".
\<close>

theorem Reconcile_condition_reasons_witness:
  "map_sum id (\<lambda>res. applicationWrites (trace (snd res)))
      (Reconcile (cluster app1 [widget ''a'' [(''Ready'', ''True'')]]) scenario (''default'', ''app1''))
     = Inr [app1\<lparr>Status :=
              \<lparr>ObservedGeneration = 1,
               ComponentList = [\<lparr>osGroup = ''example.com'', osKind = ''Widget'', osName = ''a'',
                                 osLink = [], osStatus = ''Ready''\<rparr>],
               Condition = Some \<lparr>condReady = True, condReason = ''ComponentsReady'',
                                  condMessage = ''all components ready''\<rparr>\<rparr>\<rparr>]
   \<and> map_sum id (\<lambda>res. applicationWrites (trace (snd res)))
      (Reconcile (cluster app1 [widget ''a'' [(''Ready'', ''False'')]]) scenario (''default'', ''app1''))
     = Inr [app1\<lparr>Status :=
              \<lparr>ObservedGeneration = 1,
               ComponentList = [\<lparr>osGroup = ''example.com'', osKind = ''Widget'', osName = ''a'',
                                 osLink = [], osStatus = ''InProgress''\<rparr>],
               Condition = Some \<lparr>condReady = False, condReason = ''ComponentsNotReady'',
                                  condMessage = ''some components not ready''\<rparr>\<rparr>\<rparr>]"
proof -
  let ?req = "(''default'', ''app1'')"
  let ?ready = "cluster app1 [widget ''a'' [(''Ready'', ''True'')]]"
  let ?notReady = "cluster app1 [widget ''a'' [(''Ready'', ''False'')]]"
  have g: "Client_Get (cluster app1 ws) ?req = Inr app1 \<and> DeletionTimestamp app1 = None" for ws
    by (simp add: cluster_def app1_def)
  obtain x1 st1 where r1: "Reconcile ?ready scenario ?req = Inr (x1, st1)"
    and x1: "x1 = (\<lparr>Requeue = False\<rparr>, None)"
    using Reconcile_app1_one_ready by simp
  obtain x2 st2 where r2: "Reconcile ?notReady scenario ?req = Inr (x2, st2)"
    and x2: "x2 = (\<lparr>Requeue = False\<rparr>, None)"
    using Reconcile_app1_one_not_ready by simp
  have w1: "\<exists>objs. applicationWrites (trace st1) = [app1\<lparr>Status := newApplicationStatus scenario app1 objs\<rparr>]"
    using g [of "[widget ''a'' [(''Ready'', ''True'')]]"] r1 x1
      Reconcile_condition_reasons [where r = ?ready and req = ?req and app = app1
        and pkg = scenario and x = x1 and st = st1]
    by auto
  have w2: "\<exists>objs. applicationWrites (trace st2) = [app1\<lparr>Status := newApplicationStatus scenario app1 objs\<rparr>]"
    using g [of "[widget ''a'' [(''Ready'', ''False'')]]"] r2 x2
      Reconcile_condition_reasons [where r = ?notReady and req = ?req and app = app1
        and pkg = scenario and x = x2 and st = st2]
    by auto
  show ?thesis
    using w1 w2 by (simp add: Reconcile_app1_one_ready Reconcile_app1_one_not_ready)
qed

section \<open>Status evaluation\<close>






section \<open>Discovery\<close>

lemma fetchLoop_unknown:
  "\<forall>gk \<in> set groupKinds. isl (Mapper_RESTMapping r gk) \<Longrightarrow>
   fetchLoop r logger groupKinds selector namespace resources st =
     Inr ((resources, None),
          st\<lparr>trace := trace st
               @ concat (map (\<lambda>gk. [CallRESTMapping gk, Log logger (NoMappingForGK gk)]) groupKinds)\<rparr>)"
proof (induction groupKinds arbitrary: st)
  case Nil
  then show ?case by simp
next
  case (Cons gk groupKinds)
  then obtain err where e: "Mapper_RESTMapping r gk = Inl err"
    by (cases "Mapper_RESTMapping r gk") simp_all
  have "\<forall>gk \<in> set groupKinds. isl (Mapper_RESTMapping r gk)"
    using Cons.prems by simp
  from Cons.IH [OF this] e show ?case
    by (simp add: emit_def)
qed

lemma fetchLoop_append:
  "fetchLoop r logger (pre @ post) selector namespace resources st =
     (case fetchLoop r logger pre selector namespace resources st of
        Inl p \<Rightarrow> Inl p
      | Inr ((resources', Some err), st') \<Rightarrow> Inr ((resources', Some err), st')
      | Inr ((resources', None), st') \<Rightarrow> fetchLoop r logger post selector namespace resources' st')"
proof (induction pre arbitrary: resources st)
  case Nil
  then show ?case by simp
next
  case (Cons gk pre)
  show ?case
  proof (cases "Mapper_RESTMapping r gk")
    case (Inl err)
    with Cons.IH show ?thesis by simp
  next
    case (Inr mapping)
    show ?thesis
    proof (cases selector)
      case None
      with Inr show ?thesis by simp
    next
      case (Some sel)
      show ?thesis
      proof (cases "Client_List r mapping namespace (MatchLabels sel)")
        case (Inl err)
        with Inr Some show ?thesis by (simp add: Let_def)
      next
        case items: (Inr items)
        with Inr Some Cons.IH show ?thesis
          by (simp add: Let_def split: prod.splits)
      qed
    qed
  qed
qed

text \<open>
  C7. During discovery a (group, kind) pair whose resolution fails is logged and skipped:
  the loop goes on with the resources it has, and discovery over unknown kinds only
  returns the empty sequence and no error. A list that fails for a resolvable pair is
  fatal: discovery returns the error at once, the pairs after it are never looked at, and
  Reconcile returns a retry with that error.
\<close>

theorem fetchComponentListResources_skips_unknown_propagates_list_errors:
  "((\<forall>gk \<in> set groupKinds. isl (Mapper_RESTMapping r gk)) \<longrightarrow>
      fetchComponentListResources r [(loggerCtxKey, logger)] groupKinds selector namespace st =
        Inr (([], None),
             st\<lparr>trace := trace st
                  @ concat (map (\<lambda>gk. [CallRESTMapping gk, Log logger (NoMappingForGK gk)]) groupKinds)\<rparr>))
   \<and> (isl (Mapper_RESTMapping r gk) \<longrightarrow>
        fetchLoop r logger (gk # groupKinds) selector namespace resources st =
          fetchLoop r logger groupKinds selector namespace resources
            (emit (Log logger (NoMappingForGK gk)) (emit (CallRESTMapping gk) st)))
   \<and> (fetchComponentListResources r [(loggerCtxKey, logger)] pre (Some sel) namespace st
          = Inr ((resources', None), st')
        \<and> Mapper_RESTMapping r gk = Inr mapping
        \<and> Client_List r mapping namespace (MatchLabels sel) = Inl err \<longrightarrow>
        fetchComponentListResources r [(loggerCtxKey, logger)] (pre @ gk # post) (Some sel) namespace st
          = Inr ((resources', Some err),
                 emit (CallList mapping namespace (MatchLabels sel)) (emit (CallRESTMapping gk) st')))
   \<and> (Client_Get r req = Inr app \<and> DeletionTimestamp app = None
        \<and> fetchComponentListResources r [(loggerCtxKey, req)] (ComponentGroupKinds (Spec app))
             (Selector (Spec app)) (appNamespace app) \<lparr>heap = [], trace = [CallGet req]\<rparr>
           = Inr ((resources', Some err), st') \<longrightarrow>
        Reconcile r pkg req = Inr ((\<lparr>Requeue = True\<rparr>, Some err), st'))"
proof (intro conjI impI)
  assume "\<forall>gk \<in> set groupKinds. isl (Mapper_RESTMapping r gk)"
  from fetchLoop_unknown [OF this]
  show "fetchComponentListResources r [(loggerCtxKey, logger)] groupKinds selector namespace st =
        Inr (([], None),
             st\<lparr>trace := trace st
                  @ concat (map (\<lambda>gk. [CallRESTMapping gk, Log logger (NoMappingForGK gk)]) groupKinds)\<rparr>)"
    by (simp add: fetchComponentListResources_def getLoggerOrDie_def)
next
  assume "isl (Mapper_RESTMapping r gk)"
  then show "fetchLoop r logger (gk # groupKinds) selector namespace resources st =
          fetchLoop r logger groupKinds selector namespace resources
            (emit (Log logger (NoMappingForGK gk)) (emit (CallRESTMapping gk) st))"
    by (cases "Mapper_RESTMapping r gk") simp_all
next
  assume a: "fetchComponentListResources r [(loggerCtxKey, logger)] pre (Some sel) namespace st
          = Inr ((resources', None), st')
        \<and> Mapper_RESTMapping r gk = Inr mapping
        \<and> Client_List r mapping namespace (MatchLabels sel) = Inl err"
  then have "fetchLoop r logger pre (Some sel) namespace [] st = Inr ((resources', None), st')"
    by (simp add: fetchComponentListResources_def getLoggerOrDie_def)
  with a have "fetchLoop r logger (pre @ gk # post) (Some sel) namespace [] st
          = Inr ((resources', Some err),
                 emit (CallList mapping namespace (MatchLabels sel)) (emit (CallRESTMapping gk) st'))"
    by (simp add: fetchLoop_append Let_def)
  then show "fetchComponentListResources r [(loggerCtxKey, logger)] (pre @ gk # post) (Some sel) namespace st
          = Inr ((resources', Some err),
                 emit (CallList mapping namespace (MatchLabels sel)) (emit (CallRESTMapping gk) st'))"
    by (simp add: fetchComponentListResources_def getLoggerOrDie_def)
next
  assume "Client_Get r req = Inr app \<and> DeletionTimestamp app = None
        \<and> fetchComponentListResources r [(loggerCtxKey, req)] (ComponentGroupKinds (Spec app))
             (Selector (Spec app)) (appNamespace app) \<lparr>heap = [], trace = [CallGet req]\<rparr>
           = Inr ((resources', Some err), st')"
  then show "Reconcile r pkg req = Inr ((\<lparr>Requeue = True\<rparr>, Some err), st')"
    by (simp add: Reconcile_Inr reconcileApplication_def)
qed

text \<open>
  Discovery over the kind DoesNotExist of group x, and a cluster whose list times out,
  asked for an unknown kind, Widget and Widget again.
\<close>

theorem fetchComponentListResources_skips_unknown_propagates_list_errors_witness:
  "fetchComponentListResources (cluster app1 []) [(loggerCtxKey, (''default'', ''app1''))]
      [\<lparr>gkGroup = ''x'', gkKind = ''DoesNotExist''\<rparr>] None ''default'' \<lparr>heap = [], trace = []\<rparr>
   = Inr (([], None),
          \<lparr>heap = [],
           trace = [CallRESTMapping \<lparr>gkGroup = ''x'', gkKind = ''DoesNotExist''\<rparr>,
                    Log (''default'', ''app1'')
                      (NoMappingForGK \<lparr>gkGroup = ''x'', gkKind = ''DoesNotExist''\<rparr>)]\<rparr>)
   \<and> fetchComponentListResources
        ((cluster app1 [])\<lparr>Client_List := \<lambda>gvk namespace labels. Inl (ServerError ''timeout'')\<rparr>)
        [(loggerCtxKey, (''default'', ''app1''))]
        ([\<lparr>gkGroup = ''x'', gkKind = ''DoesNotExist''\<rparr>] @ widgetGK # [widgetGK])
        (Some \<lparr>MatchLabels = [(''app'', ''app1'')]\<rparr>) ''default'' \<lparr>heap = [], trace = []\<rparr>
     = Inr (([], Some (ServerError ''timeout'')),
          \<lparr>heap = [],
           trace = [CallRESTMapping \<lparr>gkGroup = ''x'', gkKind = ''DoesNotExist''\<rparr>,
                    Log (''default'', ''app1'')
                      (NoMappingForGK \<lparr>gkGroup = ''x'', gkKind = ''DoesNotExist''\<rparr>),
                    CallRESTMapping widgetGK,
                    CallList widgetGVK ''default'' [(''app'', ''app1'')]]\<rparr>)
   \<and> Reconcile
        ((cluster app1 [])\<lparr>Client_List := \<lambda>gvk namespace labels. Inl (ServerError ''timeout'')\<rparr>)
        scenario (''default'', ''app1'')
     = Inr ((\<lparr>Requeue = True\<rparr>, Some (ServerError ''timeout'')),
          \<lparr>heap = [],
           trace = [CallGet (''default'', ''app1''), CallRESTMapping widgetGK,
                    CallList widgetGVK ''default'' [(''app'', ''app1'')]]\<rparr>)"
proof -
  let ?unknown = "\<lparr>gkGroup = ''x'', gkKind = ''DoesNotExist''\<rparr>"
  let ?ctx = "[(loggerCtxKey, (''default'', ''app1''))]"
  let ?sel = "\<lparr>MatchLabels = [(''app'', ''app1'')]\<rparr>"
  let ?r = "(cluster app1 [])\<lparr>Client_List := \<lambda>gvk namespace labels. Inl (ServerError ''timeout'')\<rparr>"
  let ?st' = "\<lparr>heap = [],
           trace = [CallRESTMapping ?unknown, Log (''default'', ''app1'') (NoMappingForGK ?unknown)]\<rparr>"
  let ?st1 = "\<lparr>heap = [],
           trace = [CallGet (''default'', ''app1''), CallRESTMapping widgetGK,
                    CallList widgetGVK ''default'' [(''app'', ''app1'')]]\<rparr>"
  have u: "\<forall>gk \<in> set [?unknown]. isl (Mapper_RESTMapping (cluster app1 []) gk)"
    by (simp add: cluster_def widgetGK_def)
  have a: "fetchComponentListResources (cluster app1 []) ?ctx [?unknown] None ''default''
       \<lparr>heap = [], trace = []\<rparr> = Inr (([], None), ?st')"
    using u fetchComponentListResources_skips_unknown_propagates_list_errors
      [where groupKinds = "[?unknown]" and r = "cluster app1 []" and logger = "(''default'', ''app1'')"
         and selector = None and namespace = "''default''" and st = "\<lparr>heap = [], trace = []\<rparr>"]
    by simp
  have pre: "fetchComponentListResources ?r ?ctx [?unknown] (Some ?sel) ''default''
       \<lparr>heap = [], trace = []\<rparr> = Inr (([], None), ?st')
     \<and> Mapper_RESTMapping ?r widgetGK = Inr widgetGVK
     \<and> Client_List ?r widgetGVK ''default'' (MatchLabels ?sel) = Inl (ServerError ''timeout'')"
    by (simp add: run_defs cluster_def widgetGK_def)
  have b: "fetchComponentListResources ?r ?ctx ([?unknown] @ widgetGK # [widgetGK]) (Some ?sel)
       ''default'' \<lparr>heap = [], trace = []\<rparr>
     = Inr (([], Some (ServerError ''timeout'')),
            emit (CallList widgetGVK ''default'' (MatchLabels ?sel)) (emit (CallRESTMapping widgetGK) ?st'))"
    using pre fetchComponentListResources_skips_unknown_propagates_list_errors
      [where r = ?r and logger = "(''default'', ''app1'')" and namespace = "''default''"
         and st = "\<lparr>heap = [], trace = []\<rparr>" and gk = widgetGK and pre = "[?unknown]"
         and sel = ?sel and resources' = "[]" and st' = ?st' and mapping = widgetGVK
         and err = "ServerError ''timeout''" and post = "[widgetGK]"]
    by blast
  have get: "Client_Get ?r (''default'', ''app1'') = Inr app1 \<and> DeletionTimestamp app1 = None
     \<and> fetchComponentListResources ?r ?ctx (ComponentGroupKinds (Spec app1)) (Selector (Spec app1))
          (appNamespace app1) \<lparr>heap = [], trace = [CallGet (''default'', ''app1'')]\<rparr>
        = Inr (([], Some (ServerError ''timeout'')), ?st1)"
    by (simp add: run_defs scenario_defs)
  have c: "Reconcile ?r scenario (''default'', ''app1'')
     = Inr ((\<lparr>Requeue = True\<rparr>, Some (ServerError ''timeout'')), ?st1)"
    using get fetchComponentListResources_skips_unknown_propagates_list_errors
      [where r = ?r and req = "(''default'', ''app1'')" and app = app1 and resources' = "[]"
         and err = "ServerError ''timeout''" and st' = ?st1 and pkg = scenario]
    by blast
  show ?thesis
    using a b c by (simp add: emit_def)
qed

text \<open>
  Lines 132-134 append the address of the loop variable, which holds the last item when
  the loop ends.
\<close>

lemma rangeItems_eq:
  "u < length h \<Longrightarrow> items \<noteq> [] \<Longrightarrow>
   rangeItems u items resources h = (resources @ replicate (length items) u, h[u := last items])"
proof (induction items arbitrary: resources h)
  case Nil
  then show ?case by simp
next
  case (Cons item items)
  show ?case
  proof (cases items)
    case Nil
    then show ?thesis by simp
  next
    case (Cons item' items')
    then have "items \<noteq> []" by simp
    moreover have "u < length (h[u := item])" using Cons.prems by simp
    ultimately have "rangeItems u items (resources @ [u]) (h[u := item])
        = ((resources @ [u]) @ replicate (length items) u, h[u := item, u := last items])"
      by (rule Cons.IH [rotated])
    then show ?thesis
      using \<open>items \<noteq> []\<close> by (simp add: replicate_app_Cons_same)
  qed
qed

text \<open>
  C1. Discovery is claimed to return every listed resource, in order, none omitted or
  replaced by another. On a cluster that lists the Widgets a and b for \<open>app1\<close>, the
  sequence returned is two pointers to the one cell of the loop variable, which holds b:
  Widget a is replaced by b. The pass then reports two components named b and, b being
  ready and a not, the condition "ComponentsReady".
\<close>

theorem fetchComponentListResources_repeats_last_item:
  "fetchComponentListResources
      (cluster app1 [widget ''a'' [(''Ready'', ''False'')], widget ''b'' [(''Ready'', ''True'')]])
      [(loggerCtxKey, (''default'', ''app1''))] [widgetGK]
      (Some \<lparr>MatchLabels = [(''app'', ''app1'')]\<rparr>) ''default'' \<lparr>heap = [], trace = []\<rparr>
   = Inr (([0, 0], None),
          \<lparr>heap = [widget ''b'' [(''Ready'', ''True'')]],
           trace = [CallRESTMapping widgetGK, CallList widgetGVK ''default'' [(''app'', ''app1'')]]\<rparr>)
   \<and> map (load [widget ''b'' [(''Ready'', ''True'')]]) [0, 0]
       = [Some (widget ''b'' [(''Ready'', ''True'')]), Some (widget ''b'' [(''Ready'', ''True'')])]
   \<and> Reconcile (cluster app1 [widget ''a'' [(''Ready'', ''False'')], widget ''b'' [(''Ready'', ''True'')]])
        scenario (''default'', ''app1'')
     = Inr ((\<lparr>Requeue = False\<rparr>, None),
          \<lparr>heap = [widget ''b'' [(''Ready'', ''True'')]],
           trace = [CallGet (''default'', ''app1''), CallRESTMapping widgetGK,
                    CallList widgetGVK ''default'' [(''app'', ''app1'')],
                    CallUpdateApplication (app1\<lparr>Status :=
                      \<lparr>ObservedGeneration = 1,
                       ComponentList = [\<lparr>osGroup = ''example.com'', osKind = ''Widget'', osName = ''b'',
                                         osLink = [], osStatus = ''Ready''\<rparr>,
                                        \<lparr>osGroup = ''example.com'', osKind = ''Widget'', osName = ''b'',
                                         osLink = [], osStatus = ''Ready''\<rparr>],
                       Condition = Some \<lparr>condReady = True, condReason = ''ComponentsReady'',
                                          condMessage = ''all components ready''\<rparr>\<rparr>\<rparr>)]\<rparr>)"
  by (simp add: run_defs scenario_defs)

section \<open>The write-back\<close>

lemma DeepEqual_pointer_struct:
  "DeepEqual (PtrApplicationStatus new) (ValApplicationStatus old) = False"
  by simp

text \<open>
  C5. A pass whose candidate status equals the stored status is claimed to end without a
  write. Line 102 compares a pointer with a struct, which DeepEqual answers with false
  whatever they hold: the pass over \<open>settledApp1\<close>, whose stored status is the candidate,
  sends the Application to \<^verbatim>\<open>Client.Update\<close> again, unchanged.
\<close>

theorem Reconcile_writes_unchanged_status:
  "newApplicationStatus scenario settledApp1
       [\<lparr>osGroup = ''example.com'', osKind = ''Widget'', osName = ''a'', osLink = [], osStatus = ''Ready''\<rparr>]
     = Status settledApp1
   \<and> Reconcile (cluster settledApp1 [widget ''a'' [(''Ready'', ''True'')]]) scenario (''default'', ''app1'')
     = Inr ((\<lparr>Requeue = False\<rparr>, None),
          \<lparr>heap = [widget ''a'' [(''Ready'', ''True'')]],
           trace = [CallGet (''default'', ''app1''), CallRESTMapping widgetGK,
                    CallList widgetGVK ''default'' [(''app'', ''app1'')],
                    CallUpdateApplication settledApp1]\<rparr>)"
  by (simp add: run_defs scenario_defs settledApp1_def)

section \<open>Determinism\<close>








end
